theory Spec2Isabelle
  imports Main
begin

section \<open>Python strings\<close>

text \<open>
  A Python \<open>str\<close> is modelled as a \<open>string\<close> whose characters are the code points
  below 256.  \<open>py_isspace\<close> is \<open>str.isspace\<close> on one such code point: the characters
  that \<open>str.strip()\<close> removes.
\<close>

definition py_isspace :: "char \<Rightarrow> bool" where
  "py_isspace c =
     (let n = (of_char c :: nat)
      in (9 \<le> n \<and> n \<le> 13) \<or> (28 \<le> n \<and> n \<le> 32) \<or> n = 133 \<or> n = 160)"

definition strip_with :: "(char \<Rightarrow> bool) \<Rightarrow> string \<Rightarrow> string" where
  "strip_with sp s = rev (dropWhile sp (rev (dropWhile sp s)))"

definition py_strip :: "string \<Rightarrow> string" where
  "py_strip s = strip_with py_isspace s"

text \<open>\<open>s.split(sep)\<close> for a separator of one character: never the empty list.\<close>

fun py_split :: "char \<Rightarrow> string \<Rightarrow> string list" where
  "py_split sep [] = [[]]"
| "py_split sep (c # cs) =
     (if c = sep then [] # py_split sep cs
      else (case py_split sep cs of
              [] \<Rightarrow> [[c]]
            | w # ws \<Rightarrow> (c # w) # ws))"

text \<open>
  \<open>int(s)\<close> in base 10, \<open>None\<close> where Python raises \<open>ValueError\<close>: optional
  white space, an optional sign, then digits in which single underscores may stand
  between two digits, then optional white space.  The white space \<open>int\<close> accepts is
  narrower than that of \<open>strip\<close> (the separators 28 to 31 are refused).  The interpreter's
  limit on the number of digits is not modelled.
\<close>

definition int_isspace :: "char \<Rightarrow> bool" where
  "int_isspace c =
     (let n = (of_char c :: nat)
      in (9 \<le> n \<and> n \<le> 13) \<or> n = 32 \<or> n = 133 \<or> n = 160)"

definition is_digit :: "char \<Rightarrow> bool" where
  "is_digit c = (48 \<le> (of_char c :: nat) \<and> (of_char c :: nat) \<le> 57)"

fun digits_ok :: "string \<Rightarrow> bool" where
  "digits_ok [] = False"
| "digits_ok [c] = is_digit c"
| "digits_ok (c # d # cs) =
     (is_digit c \<and> (if d = CHR ''_'' then digits_ok cs else digits_ok (d # cs)))"

definition digits_value :: "string \<Rightarrow> int" where
  "digits_value s =
     foldl (\<lambda>acc c. if c = CHR ''_'' then acc else 10 * acc + (of_char c - 48)) 0 s"

definition py_int :: "string \<Rightarrow> int option" where
  "py_int s =
     (let t = strip_with int_isspace s;
          (neg, body) = (case t of
                           [] \<Rightarrow> (False, t)
                         | c # r \<Rightarrow> if c = CHR ''-'' then (True, r)
                                    else if c = CHR ''+'' then (False, r)
                                    else (False, t))
      in if digits_ok body
         then Some (if neg then - digits_value body else digits_value body)
         else None)"

text \<open>\<open>s.replace(old, "")\<close> for a non-empty \<open>old\<close>.\<close>

function remove_all :: "string \<Rightarrow> string \<Rightarrow> string" where
  "remove_all old [] = []"
| "remove_all old (c # cs) =
     (if old \<noteq> [] \<and> take (length old) (c # cs) = old
      then remove_all old (drop (length old) (c # cs))
      else c # remove_all old cs)"
  by pat_completeness auto
termination
  by (relation "measure (\<lambda>(old, s). length s)") auto

section \<open>Errors\<close>

datatype error =
    ValueError
  | ZeroDivisionError
  | FileNotFoundError
  | InterpolationSyntaxError
  | InterpolationMissingOptionError
  | InterpolationDepthError

section \<open>configparser: interpolation of values\<close>

text \<open>
  The host's INI file is read and written with a \<open>ConfigParser\<close> of the default
  \<open>BasicInterpolation\<close>.  \<open>key_match\<close> is a match of the pattern \<open>%(key)s\<close> at the
  start of a string, and \<open>remove_keys\<close> deletes every match.  \<open>before_set_ok\<close> is the
  test of a value that is stored, which raises \<open>ValueError\<close> where it fails.
  \<open>interpolate\<close> is the substitution applied to a value that is read, from the options
  \<open>m\<close> of its section (under their names in lower case) and up to the depth 10.
\<close>

definition py_lower :: "string \<Rightarrow> string" where
  "py_lower s =
     map (\<lambda>c. let n = (of_char c :: nat)
               in if (65 \<le> n \<and> n \<le> 90) \<or> (192 \<le> n \<and> n \<le> 222 \<and> n \<noteq> 215)
                  then char_of (n + 32) else c) s"

definition key_match :: "string \<Rightarrow> string option" where
  "key_match s =
     (case s of
        c # d # r \<Rightarrow>
          if c = CHR ''%'' \<and> d = CHR ''(''
          then (let key = takeWhile (\<lambda>x. x \<noteq> CHR '')'') r
                in if key \<noteq> [] \<and> take 2 (drop (length key) r) = '')s''
                   then Some key else None)
          else None
      | _ \<Rightarrow> None)"

function remove_keys :: "string \<Rightarrow> string" where
  "remove_keys [] = []"
| "remove_keys (c # cs) =
     (case key_match (c # cs) of
        Some key \<Rightarrow> remove_keys (drop (length key + 4) (c # cs))
      | None \<Rightarrow> c # remove_keys cs)"
  by pat_completeness auto
termination
  by (relation "measure length") auto

definition before_set_ok :: "string \<Rightarrow> bool" where
  "before_set_ok v = (CHR ''%'' \<notin> set (remove_keys (remove_all ''%%'' v)))"

function interpolate :: "(string \<Rightarrow> string option) \<Rightarrow> nat \<Rightarrow> string \<Rightarrow> error + string" where
  "interpolate m depth [] =
     (if depth > 10 then Inl InterpolationDepthError else Inr [])"
| "interpolate m depth (c # r) =
     (if depth > 10 then Inl InterpolationDepthError
      else if c \<noteq> CHR ''%'' then
        (case interpolate m depth r of
           Inl e \<Rightarrow> Inl e
         | Inr t \<Rightarrow> Inr (c # t))
      else if take 1 r = ''%'' then
        (case interpolate m depth (drop 1 r) of
           Inl e \<Rightarrow> Inl e
         | Inr t \<Rightarrow> Inr (CHR ''%'' # t))
      else if take 1 r = ''('' then
        (case key_match (c # r) of
           None \<Rightarrow> Inl InterpolationSyntaxError
         | Some key \<Rightarrow>
             (case m (py_lower key) of
                None \<Rightarrow> Inl InterpolationMissingOptionError
              | Some v \<Rightarrow>
                  (case (if CHR ''%'' \<in> set v then interpolate m (depth + 1) v else Inr v) of
                     Inl e \<Rightarrow> Inl e
                   | Inr s \<Rightarrow>
                       (case interpolate m depth (drop (length key + 4) (c # r)) of
                          Inl e \<Rightarrow> Inl e
                        | Inr t \<Rightarrow> Inr (s @ t)))))
      else Inl InterpolationSyntaxError)"
  by pat_completeness auto
termination
  by (relation "measures [\<lambda>(m, depth, rest). 11 - depth, \<lambda>(m, depth, rest). length rest]") auto

section \<open>aspect\_ratio.py\<close>

text \<open>
  The attributes \<open>x\<close> and \<open>y\<close> of the class are the fields \<open>ratio_x\<close> and
  \<open>ratio_y\<close>.  \<open>math.gcd\<close> is the non-negative greatest common divisor and \<open>//\<close>
  is floor division, as \<open>gcd\<close> and \<open>div\<close> on \<open>int\<close> are.
\<close>

record AspectRatio =
  ratio_x :: int
  ratio_y :: int

definition AspectRatio_init :: "int \<Rightarrow> int \<Rightarrow> error + AspectRatio" where
  "AspectRatio_init x y =
     (if x = 0 \<or> y = 0 then Inl ValueError
      else (let gcd_self = gcd x y
            in Inr \<lparr>ratio_x = x div gcd_self, ratio_y = y div gcd_self\<rparr>))"

text \<open>
  The parsing shared by \<open>is_equal\<close> and \<open>from_string\<close>: the body of their \<open>try\<close>
  block, \<open>None\<close> for the \<open>ValueError\<close> of the unpacking or of \<open>int\<close>.
\<close>

definition parse_ratio :: "string \<Rightarrow> (int \<times> int) option" where
  "parse_ratio ratio_str =
     (case py_split CHR '':'' ratio_str of
        [x_str, y_str] \<Rightarrow>
          (case py_int x_str of
             None \<Rightarrow> None
           | Some x_ratio \<Rightarrow>
               (case py_int y_str of
                  None \<Rightarrow> None
                | Some y_ratio \<Rightarrow> Some (x_ratio, y_ratio)))
      | _ \<Rightarrow> None)"

definition is_equal :: "AspectRatio \<Rightarrow> string \<Rightarrow> error + bool" where
  "is_equal self ratio_str =
     (case parse_ratio ratio_str of
        None \<Rightarrow> Inl ValueError
      | Some (x_ratio, y_ratio) \<Rightarrow>
          (let gcd_ratio = gcd x_ratio y_ratio
           in if gcd_ratio = 0 then Inl ZeroDivisionError
              else Inr (ratio_x self = x_ratio div gcd_ratio \<and>
                        ratio_y self = y_ratio div gcd_ratio)))"

definition from_string :: "string option \<Rightarrow> error + AspectRatio option" where
  "from_string ratio_str =
     (case ratio_str of
        None \<Rightarrow> Inr None
      | Some s \<Rightarrow>
          (case parse_ratio s of
             None \<Rightarrow> Inr None
           | Some (x_ratio, y_ratio) \<Rightarrow>
               (case AspectRatio_init x_ratio y_ratio of
                  Inl e \<Rightarrow> Inl e
                | Inr a \<Rightarrow> Inr (Some a))))"

section \<open>configuration.py: the rule and its predicates\<close>

record Configuration =
  name :: string
  profile :: "string option"
  enable_mods :: "string list"
  disable_mods :: "string list"
  min_vram :: "int option"
  max_vram :: "int option"
  aspect_ratio :: "AspectRatio option"
  system_language :: "string option"

definition check_aspect_ratio :: "Configuration \<Rightarrow> string \<Rightarrow> error + bool" where
  "check_aspect_ratio self ratio_str =
     (case aspect_ratio self of
        None \<Rightarrow> Inr True
      | Some a \<Rightarrow> is_equal a ratio_str)"

definition check_vram :: "Configuration \<Rightarrow> int \<Rightarrow> bool" where
  "check_vram self vram =
     (case (min_vram self, max_vram self) of
        (None, None) \<Rightarrow> True
      | (Some mn, None) \<Rightarrow> mn \<le> vram
      | (None, Some mx) \<Rightarrow> mx > vram
      | (Some mn, Some mx) \<Rightarrow> mx > vram \<and> vram \<ge> mn)"

definition check_system_language :: "Configuration \<Rightarrow> string \<Rightarrow> bool" where
  "check_system_language self language =
     (case system_language self of
        None \<Rightarrow> True
      | Some l \<Rightarrow> l = language)"

text \<open>\<open>and\<close> evaluates from the left and stops at the first false operand.\<close>

definition check :: "Configuration \<Rightarrow> int \<Rightarrow> string \<Rightarrow> string \<Rightarrow> error + bool" where
  "check self vram ratio_str language =
     (case check_aspect_ratio self ratio_str of
        Inl e \<Rightarrow> Inl e
      | Inr False \<Rightarrow> Inr False
      | Inr True \<Rightarrow> Inr (check_vram self vram \<and> check_system_language self language))"

section \<open>profile.py\<close>

text \<open>
  The state the plugin reads and writes: the options of the section \<open>General\<close> of the
  host's INI file (their stored values by their names in lower case, \<open>None\<close> when the
  file has no such section; the file has no \<open>DEFAULT\<close> section), the text of the
  \<open>modlist.txt\<close> of each profile directory (indexed by the directory's name under
  \<open>Profile.directory\<close>; \<open>None\<close> where there is no such file), the profile directories
  that \<open>get_profiles\<close> finds, the records written with \<open>logger.error\<close> by
  \<open>Configuration.do\<close> (messages of lower levels are not recorded), and the calls of
  \<open>Profile.modify_modlist_file\<close> that \<open>Configuration.do\<close> has made, with their three
  arguments.

  A function that changes the state returns \<open>Inr\<close> of the new state, or \<open>Inl\<close> of the
  exception it raises and of the state at that moment.
\<close>

datatype log_error =
    NotExistingProfile string string
  | NotExistingModListEnable string string
  | NotExistingModListDisable string string

record world =
  general :: "(string \<Rightarrow> string option) option"
  modlists :: "string \<Rightarrow> string option"
  available_profiles :: "string list"
  errors :: "log_error list"
  calls :: "(string \<times> string list \<times> string list) list"

definition selected_profile :: "world \<Rightarrow> string option" where
  "selected_profile w = (case general w of None \<Rightarrow> None | Some g \<Rightarrow> g ''selected_profile'')"

definition get_profiles :: "world \<Rightarrow> string list" where
  "get_profiles w = available_profiles w"

definition change_profile :: "string \<Rightarrow> world \<Rightarrow> (error \<times> world) + world" where
  "change_profile nm w =
     (let v = ''@ByteArray('' @ nm @ '')''
      in if \<not> before_set_ok v then Inl (ValueError, w)
         else Inr (w\<lparr>general :=
                       Some ((case general w of None \<Rightarrow> Map.empty | Some g \<Rightarrow> g)
                               (''selected_profile'' \<mapsto> v))\<rparr>))"

definition current_profile :: "world \<Rightarrow> error + string" where
  "current_profile w =
     (case general w of
        None \<Rightarrow> Inr (remove_all '')'' (remove_all ''@ByteArray('' []))
      | Some g \<Rightarrow>
          (case g ''selected_profile'' of
             None \<Rightarrow> Inr (remove_all '')'' (remove_all ''@ByteArray('' []))
           | Some v \<Rightarrow>
               (case interpolate g 1 v of
                  Inl e \<Rightarrow> Inl e
                | Inr profile_name \<Rightarrow>
                    Inr (remove_all '')'' (remove_all ''@ByteArray('' profile_name)))))"

definition get_modlist_file :: "world \<Rightarrow> error + string" where
  "get_modlist_file w = current_profile w"

text \<open>
  Text mode input: \<open>readlines\<close> translates the line endings \<open>\r\n\<close> and \<open>\r\<close> to
  \<open>\n\<close> and cuts the text after each \<open>\n\<close>.  \<open>writelines\<close> writes the strings one
  after the other; the stored text is kept with \<open>\n\<close> as its line ending.
\<close>

fun translate_newlines :: "string \<Rightarrow> string" where
  "translate_newlines [] = []"
| "translate_newlines [c] = [if c = CHR 0x0D then CHR ''\<newline>'' else c]"
| "translate_newlines (c # d # ds) =
     (if c = CHR 0x0D \<and> d = CHR ''\<newline>'' then CHR ''\<newline>'' # translate_newlines ds
      else if c = CHR 0x0D then CHR ''\<newline>'' # translate_newlines (d # ds)
      else c # translate_newlines (d # ds))"

fun lines_keepends :: "string \<Rightarrow> string list" where
  "lines_keepends [] = []"
| "lines_keepends (c # cs) =
     (if c = CHR ''\<newline>'' then [c] # lines_keepends cs
      else (case lines_keepends cs of
              [] \<Rightarrow> [[c]]
            | l # ls \<Rightarrow> (c # l) # ls))"

definition readlines :: "string \<Rightarrow> string list" where
  "readlines content = lines_keepends (translate_newlines content)"

definition writelines :: "string list \<Rightarrow> string" where
  "writelines ls = concat ls"

text \<open>The loop of \<open>modify_modlist_file\<close> over the lines read.\<close>

fun modified_lines :: "string list \<Rightarrow> string list \<Rightarrow> string list \<Rightarrow> string list" where
  "modified_lines [] enabled disabled = []"
| "modified_lines (raw # lines) enabled disabled =
     (let line = py_strip raw
      in if length line < 2 then modified_lines lines enabled disabled
         else (let sign = hd line;
                   nm = py_strip (tl line)
               in (if nm \<in> set enabled then CHR ''+'' # nm @ ''\<newline>''
                   else if nm \<in> set disabled then CHR ''-'' # nm @ ''\<newline>''
                   else sign # nm @ ''\<newline>'')
                  # modified_lines lines enabled disabled))"

definition modify_modlist_file ::
  "string \<Rightarrow> string list \<Rightarrow> string list \<Rightarrow> world \<Rightarrow> (error \<times> world) + world" where
  "modify_modlist_file filename enabled disabled w =
     (case modlists w filename of
        None \<Rightarrow> Inl (FileNotFoundError, w)
      | Some content \<Rightarrow>
          (let lines = readlines content;
               modified = modified_lines lines enabled disabled
           in Inr (w\<lparr>modlists := (modlists w)(filename \<mapsto> writelines modified)\<rparr>)))"

text \<open>
  The rewrite in the words of the specification: which lines are kept, the mod name of a
  line, and the sign it is emitted with.
\<close>

definition kept :: "string \<Rightarrow> bool" where
  "kept raw = (2 \<le> length (py_strip raw))"

definition mod_name :: "string \<Rightarrow> string" where
  "mod_name raw = py_strip (tl (py_strip raw))"

definition emitted_sign :: "string list \<Rightarrow> string list \<Rightarrow> string \<Rightarrow> char" where
  "emitted_sign enabled disabled raw =
     (if mod_name raw \<in> set enabled then CHR ''+''
      else if mod_name raw \<in> set disabled then CHR ''-''
      else hd (py_strip raw))"

text \<open>
  An emitted line \<open>out\<close> is the normal form of the input line \<open>raw\<close>: a sign, the mod
  name of \<open>raw\<close> without white space around it, and a newline.
\<close>

definition normal_line :: "string \<Rightarrow> string \<Rightarrow> bool" where
  "normal_line raw out =
     (let line = py_strip raw;
          nm = py_strip (tl line)
      in 2 \<le> length line
       \<and> \<not> py_isspace (hd line)
       \<and> nm \<noteq> [] \<and> \<not> py_isspace (hd nm) \<and> \<not> py_isspace (last nm)
       \<and> (out = CHR ''+'' # nm @ ''\<newline>''
            \<or> out = CHR ''-'' # nm @ ''\<newline>''
            \<or> out = hd line # nm @ ''\<newline>''))"

section \<open>configuration.py: applying a rule\<close>

text \<open>
  The group mapping is a dictionary in insertion order: an association list whose first
  entry for a key is the key's value.
\<close>

type_synonym mod_lists = "(string \<times> string list) list"

text \<open>
  One of the two loops of \<open>do\<close> over group names (lines 148 to 160): the mod names
  collected and the errors logged, \<open>err\<close> being the message of the loop.
\<close>

fun resolve_mods ::
  "(string \<Rightarrow> log_error) \<Rightarrow> mod_lists \<Rightarrow> string list
     \<Rightarrow> string list \<times> log_error list \<Rightarrow> string list \<times> log_error list" where
  "resolve_mods err mod_lists [] acc = acc"
| "resolve_mods err mod_lists (m # ms) (mods, errs) =
     (case map_of mod_lists m of
        Some l \<Rightarrow> resolve_mods err mod_lists ms (mods @ l, errs)
      | None \<Rightarrow> resolve_mods err mod_lists ms (mods, errs @ [err m]))"

text \<open>
  \<open>list(set(xs))\<close>: the elements of \<open>xs\<close> without repetition.  Python leaves their
  order open; the rewrite only tests membership in the two lists.
\<close>

definition list_set :: "string list \<Rightarrow> string list" where
  "list_set xs = remdups xs"

text \<open>
  Lines 162 to 169 of \<open>do\<close>: \<open>None\<close> when the rewrite is skipped, otherwise the two
  arguments \<open>enabled\<close> and \<open>filtered_disabled\<close> of the call of \<open>modify_modlist_file\<close>.
\<close>

definition final_collections ::
  "string list \<Rightarrow> string list \<Rightarrow> (string list \<times> string list) option" where
  "final_collections enabled disabled =
     (if enabled = [] \<and> disabled = [] then None
      else (let enabled' = list_set enabled;
                disabled' = list_set disabled;
                filtered_disabled = filter (\<lambda>item. item \<notin> set enabled') disabled'
            in Some (enabled', filtered_disabled)))"

text \<open>
  The two collections of lines 145 to 160, before they are deduplicated: the mod names
  of the groups that \<open>enable_mods\<close> and \<open>disable_mods\<close> name.
\<close>

definition resolved_enable :: "Configuration \<Rightarrow> mod_lists \<Rightarrow> string list" where
  "resolved_enable self mod_lists =
     fst (resolve_mods (NotExistingModListEnable (name self)) mod_lists (enable_mods self) ([], []))"

definition resolved_disable :: "Configuration \<Rightarrow> mod_lists \<Rightarrow> string list" where
  "resolved_disable self mod_lists =
     fst (resolve_mods (NotExistingModListDisable (name self)) mod_lists (disable_mods self) ([], []))"

text \<open>Lines 138 to 143 of \<open>do\<close>: the switch of the profile, or the error logged.\<close>

definition do_profile :: "Configuration \<Rightarrow> string list \<Rightarrow> world \<Rightarrow> (error \<times> world) + world" where
  "do_profile self profiles w =
     (case profile self of
        None \<Rightarrow> Inr w
      | Some p \<Rightarrow>
          if p \<in> set profiles then change_profile p w
          else Inr (w\<lparr>errors := errors w @ [NotExistingProfile (name self) p]\<rparr>))"

definition do ::
  "Configuration \<Rightarrow> string list \<Rightarrow> mod_lists \<Rightarrow> world \<Rightarrow> (error \<times> world) + world" where
  "do self profiles mod_lists w =
     (case do_profile self profiles w of
        Inl x \<Rightarrow> Inl x
      | Inr w1 \<Rightarrow>
          (let (enabled, errs1) =
                 resolve_mods (NotExistingModListEnable (name self)) mod_lists
                   (enable_mods self) ([], []);
               (disabled, errs2) =
                 resolve_mods (NotExistingModListDisable (name self)) mod_lists
                   (disable_mods self) ([], []);
               w2 = w1\<lparr>errors := errors w1 @ errs1 @ errs2\<rparr>
           in case final_collections enabled disabled of
                None \<Rightarrow> Inr w2
              | Some (enabled', filtered_disabled) \<Rightarrow>
                  (case get_modlist_file w2 of
                     Inl e \<Rightarrow> Inl (e, w2)
                   | Inr filename \<Rightarrow>
                       modify_modlist_file filename enabled' filtered_disabled
                         (w2\<lparr>calls := calls w2 @ [(filename, enabled', filtered_disabled)]\<rparr>))))"

section \<open>configuration.py: loading the rules\<close>

text \<open>
  The parsed rule file, as the code uses it: \<open>has_section\<close>, and \<open>get_raw\<close> for the
  value of an option of a section, \<open>None\<close> where \<open>ConfigParser.get\<close> falls back.
\<close>

record ConfigParser =
  has_section :: "string \<Rightarrow> bool"
  get_raw :: "string \<Rightarrow> string \<Rightarrow> string option"

definition config_get :: "ConfigParser \<Rightarrow> string \<Rightarrow> string \<Rightarrow> string \<Rightarrow> string" where
  "config_get config section option fallback =
     (case get_raw config section option of None \<Rightarrow> fallback | Some v \<Rightarrow> v)"

definition getlist :: "ConfigParser \<Rightarrow> string \<Rightarrow> string \<Rightarrow> string list" where
  "getlist config section option =
     (case get_raw config section option of
        None \<Rightarrow> []
      | Some v \<Rightarrow> py_split CHR ''\<newline>'' v)"

definition int_or_none :: "string \<Rightarrow> int option" where
  "int_or_none v = py_int v"

text \<open>Lines 225 to 230: each name that is not yet a key becomes one, with no mods.\<close>

fun add_keys :: "string list \<Rightarrow> mod_lists \<Rightarrow> mod_lists" where
  "add_keys [] mod_lists = mod_lists"
| "add_keys (m # ms) mod_lists =
     add_keys ms (if map_of mod_lists m = None then mod_lists @ [(m, [])] else mod_lists)"

definition nonblank :: "string list \<Rightarrow> string list" where
  "nonblank items = filter (\<lambda>item. item \<noteq> [] \<and> py_strip item \<noteq> []) items"

text \<open>The loop over the names of the \<open>Settings\<close> key (lines 209 to 232).\<close>

fun load_sections ::
  "ConfigParser \<Rightarrow> string list \<Rightarrow> Configuration list \<times> mod_lists
     \<Rightarrow> error + (Configuration list \<times> mod_lists)" where
  "load_sections config [] acc = Inr acc"
| "load_sections config (section # rest) (settings, mod_lists) =
     (if has_section config section
      then (let profile_str = config_get config section ''Profile'' [];
                enable = py_split CHR '','' (config_get config section ''EnableMods'' []);
                disable = py_split CHR '','' (config_get config section ''DisableMods'' []);
                mn = int_or_none (config_get config section ''MinVram'' []);
                mx = int_or_none (config_get config section ''MaxVram'' []);
                ratio_str = config_get config section ''AspectRatio'' [];
                language = config_get config section ''SystemLanguage'' [];
                enable' = nonblank enable;
                disable' = nonblank disable;
                mod_lists' = add_keys disable' (add_keys enable' mod_lists)
            in case from_string (if ratio_str = [] then None else Some ratio_str) of
                 Inl e \<Rightarrow> Inl e
               | Inr ratio \<Rightarrow>
                   load_sections config rest
                     (settings @
                        [\<lparr>name = section,
                          profile = (if profile_str = [] then None else Some profile_str),
                          enable_mods = enable',
                          disable_mods = disable',
                          min_vram = mn,
                          max_vram = mx,
                          aspect_ratio = ratio,
                          system_language = (if language = [] then None else Some language)\<rparr>],
                      mod_lists'))
      else load_sections config rest (settings, mod_lists))"

text \<open>
  \<open>load_configurations\<close>, from the parsed rule file; \<open>None\<close> when the file does not
  exist.
\<close>

definition load_configurations ::
  "ConfigParser option \<Rightarrow> error + (Configuration list \<times> mod_lists)" where
  "load_configurations file =
     (case file of
        None \<Rightarrow> Inr ([], [])
      | Some config \<Rightarrow>
          (let configuration_sections = py_split CHR '','' (config_get config ''General'' ''Settings'' [])
           in case load_sections config configuration_sections ([], []) of
                Inl e \<Rightarrow> Inl e
              | Inr (settings, mod_lists) \<Rightarrow>
                  Inr (settings,
                       map (\<lambda>(section, mods).
                              if has_section config section
                              then (section, getlist config section ''Mod'')
                              else (section, mods)) mod_lists)))"

section \<open>assistant.py\<close>

record ProfileAssistant =
  pa_vram :: int
  pa_aspect_ratio :: string
  pa_system_language :: string
  pa_configurations :: "Configuration list"
  pa_mod_lists :: mod_lists

text \<open>The loop of \<open>set_configuration\<close>; an exception of \<open>check\<close> or \<open>do\<close> ends it.\<close>

fun apply_configurations ::
  "ProfileAssistant \<Rightarrow> string list \<Rightarrow> Configuration list \<Rightarrow> world
     \<Rightarrow> (error \<times> world) + world" where
  "apply_configurations self profiles [] w = Inr w"
| "apply_configurations self profiles (c # cs) w =
     (case check c (pa_vram self) (pa_aspect_ratio self) (pa_system_language self) of
        Inl e \<Rightarrow> Inl (e, w)
      | Inr False \<Rightarrow> apply_configurations self profiles cs w
      | Inr True \<Rightarrow>
          (case do c profiles (pa_mod_lists self) w of
             Inl x \<Rightarrow> Inl x
           | Inr w' \<Rightarrow> apply_configurations self profiles cs w'))"

definition set_configuration :: "ProfileAssistant \<Rightarrow> world \<Rightarrow> (error \<times> world) + world" where
  "set_configuration self w =
     (let profiles = get_profiles w
      in apply_configurations self profiles (pa_configurations self) w)"

section \<open>Notions used in the statements\<close>

text \<open>
  What the loop of \<open>load_sections\<close> keeps true: every name that a loaded rule refers to
  is a key, and no key has a mod yet.
\<close>

definition loader_inv :: "Configuration list \<times> mod_lists \<Rightarrow> bool" where
  "loader_inv acc =
     (case acc of (settings, d) \<Rightarrow>
        (\<forall>c \<in> set settings. set (enable_mods c) \<union> set (disable_mods c) \<subseteq> fst ` set d)
      \<and> (\<forall>v \<in> snd ` set d. v = []))"

text \<open>
  A configuration matches the environment of the assistant when \<open>check\<close> returns
  \<open>True\<close>; \<open>check_returns\<close> when \<open>check\<close> does not raise; it sets a profile when
  it matches and has a profile.  A configuration switches
  the profile when it names one of the available profiles.  \<open>do_all\<close> calls \<open>do\<close> on
  each configuration of a list in turn, on the state the call before left, and stops at
  the first exception, with the state in which it was raised.
\<close>

definition matching :: "ProfileAssistant \<Rightarrow> Configuration \<Rightarrow> bool" where
  "matching self c =
     (check c (pa_vram self) (pa_aspect_ratio self) (pa_system_language self) = Inr True)"

definition check_returns :: "ProfileAssistant \<Rightarrow> Configuration \<Rightarrow> bool" where
  "check_returns self c =
     (case check c (pa_vram self) (pa_aspect_ratio self) (pa_system_language self) of
        Inl e \<Rightarrow> False
      | Inr b \<Rightarrow> True)"

definition sets_profile :: "ProfileAssistant \<Rightarrow> Configuration \<Rightarrow> bool" where
  "sets_profile self c = (matching self c \<and> profile c \<noteq> None)"

definition switches :: "string list \<Rightarrow> Configuration \<Rightarrow> bool" where
  "switches profiles c = (case profile c of None \<Rightarrow> False | Some p \<Rightarrow> p \<in> set profiles)"

fun do_all ::
  "Configuration list \<Rightarrow> string list \<Rightarrow> mod_lists \<Rightarrow> world \<Rightarrow> (error \<times> world) + world" where
  "do_all [] profiles mod_lists w = Inr w"
| "do_all (c # cs) profiles mod_lists w =
     (case do c profiles mod_lists w of
        Inl x \<Rightarrow> Inl x
      | Inr w' \<Rightarrow> do_all cs profiles mod_lists w')"

text \<open>The state in which a call ends, whether it returns or raises.\<close>

definition outcome :: "(error \<times> world) + world \<Rightarrow> world" where
  "outcome r = (case r of Inl (e, w) \<Rightarrow> w | Inr w \<Rightarrow> w)"

text \<open>
  A rule file for the examples: the rule \<open>Low\<close> for less than 6 GB enables the groups
  \<open>LowGroup\<close>, which has a section with two mods, and \<open>Missing\<close>, which has none; the
  name \<open>Ghost\<close> of the \<open>Settings\<close> key has no section.
\<close>

definition example_config :: ConfigParser where
  "example_config =
     \<lparr>has_section = (\<lambda>s. s \<in> set [''General'', ''Low'', ''LowGroup'']),
      get_raw = (\<lambda>s k. map_of
        [((''General'', ''Settings''), ''Low,Ghost''),
         ((''Low'', ''MinVram''), ''0''),
         ((''Low'', ''MaxVram''), ''6''),
         ((''Low'', ''EnableMods''), ''LowGroup,Missing''),
         ((''LowGroup'', ''Mod''), ''modA\<newline>modB'')] (s, k))\<rparr>"

definition example_rule :: Configuration where
  "example_rule =
     \<lparr>name = ''Low'', profile = None,
      enable_mods = [''LowGroup'', ''Missing''], disable_mods = [],
      min_vram = Some 0, max_vram = Some 6,
      aspect_ratio = None, system_language = None\<rparr>"

definition example_groups :: mod_lists where
  "example_groups = [(''LowGroup'', [''modA'', ''modB'']), (''Missing'', [])]"

text \<open>
  Two rules without predicates: the first names the profile \<open>A\<close>, the second the
  profile \<open>B\<close>; a state in which \<open>A\<close> is the only profile there is.
\<close>

definition rule_A :: Configuration where
  "rule_A =
     \<lparr>name = ''First'', profile = Some ''A'', enable_mods = [], disable_mods = [],
      min_vram = None, max_vram = None, aspect_ratio = None, system_language = None\<rparr>"

definition rule_B :: Configuration where
  "rule_B =
     \<lparr>name = ''Second'', profile = Some ''B'', enable_mods = [], disable_mods = [],
      min_vram = None, max_vram = None, aspect_ratio = None, system_language = None\<rparr>"

definition example_assistant :: "Configuration list \<Rightarrow> ProfileAssistant" where
  "example_assistant cs =
     \<lparr>pa_vram = 4, pa_aspect_ratio = ''16:9'', pa_system_language = ''en'',
      pa_configurations = cs, pa_mod_lists = example_groups\<rparr>"

definition example_world :: world where
  "example_world =
     \<lparr>general = Some [''selected_profile'' \<mapsto> ''@ByteArray(A)''],
      modlists = [''A'' \<mapsto> ''-modA\<newline>+modB\<newline>-other\<newline>''],
      available_profiles = [''A''],
      errors = [],
      calls = []\<rparr>"

text \<open>
  A rule that names the group \<open>A\<close> of the single mod \<open>modX\<close> both to enable and to
  disable, and a rule that names a profile with a percent sign.
\<close>

definition rule_conflict :: Configuration where
  "rule_conflict =
     \<lparr>name = ''Conflict'', profile = None, enable_mods = [''A''], disable_mods = [''A''],
      min_vram = None, max_vram = None, aspect_ratio = None, system_language = None\<rparr>"

definition rule_percent :: Configuration where
  "rule_percent =
     \<lparr>name = ''Percent'', profile = Some ''50%'', enable_mods = [], disable_mods = [],
      min_vram = None, max_vram = None, aspect_ratio = None, system_language = None\<rparr>"

section \<open>Properties\<close>

subsection \<open>The VRAM predicate\<close>

text \<open>
  C1. For every configuration and every integer \<open>vram\<close>, \<open>check_vram\<close> is true exactly
  when the lower bound is absent or at most \<open>vram\<close>, and the upper bound is absent or
  greater than \<open>vram\<close>.  A configuration with bounds 8 and 12 matches 8 and 11 and
  matches neither 7 nor 12.
\<close>

theorem check_vram_half_open:
  "(check_vram c vram \<longleftrightarrow>
      (case min_vram c of None \<Rightarrow> True | Some mn \<Rightarrow> vram \<ge> mn) \<and>
      (case max_vram c of None \<Rightarrow> True | Some mx \<Rightarrow> vram < mx))
   \<and> check_vram (c\<lparr>min_vram := Some 8, max_vram := Some 12\<rparr>) 8
   \<and> check_vram (c\<lparr>min_vram := Some 8, max_vram := Some 12\<rparr>) 11
   \<and> \<not> check_vram (c\<lparr>min_vram := Some 8, max_vram := Some 12\<rparr>) 7
   \<and> \<not> check_vram (c\<lparr>min_vram := Some 8, max_vram := Some 12\<rparr>) 12"
  by (auto simp: check_vram_def split: option.splits)

subsection \<open>Construction of an aspect ratio\<close>

text \<open>
  C5. For all integers \<open>x\<close> and \<open>y\<close>, the constructor raises exactly when one of them
  is zero; otherwise the stored pair is the input pair divided by its greatest common
  divisor, and the stored components are coprime.
\<close>

theorem AspectRatio_init_reduced:
  "((\<exists>e. AspectRatio_init x y = Inl e) \<longleftrightarrow> x = 0 \<or> y = 0)
   \<and> (x \<noteq> 0 \<and> y \<noteq> 0 \<longrightarrow>
        (\<exists>a. AspectRatio_init x y = Inr a
           \<and> ratio_x a = x div gcd x y \<and> ratio_y a = y div gcd x y
           \<and> gcd (ratio_x a) (ratio_y a) = 1))"
proof -
  have "gcd (x div gcd x y) (y div gcd x y) = 1" if "x \<noteq> 0"
    using that div_gcd_coprime [of x y] by (simp add: coprime_iff_gcd_eq_1)
  then show ?thesis
    by (auto simp: AspectRatio_init_def Let_def)
qed

theorem AspectRatio_init_reduced_witness:
  "\<exists>a. AspectRatio_init 1920 (-1080) = Inr a \<and> ratio_x a = 16 \<and> ratio_y a = -9
        \<and> gcd (ratio_x a) (ratio_y a) = 1"
proof -
  have g: "gcd (1920::int) 1080 = 120" by code_simp
  show ?thesis using AspectRatio_init_reduced [of 1920 "-1080"] by (simp add: g)
qed

subsection \<open>Stripping white space\<close>

lemma last_dropWhile_keep: "dropWhile P xs \<noteq> [] \<Longrightarrow> last (dropWhile P xs) = last xs"
  by (induction xs) (auto split: if_splits)

lemma dropWhile_fixed: "xs \<noteq> [] \<Longrightarrow> \<not> P (hd xs) \<Longrightarrow> dropWhile P xs = xs"
  by (cases xs) auto

lemma dropWhile_all: "\<forall>c\<in>set xs. P c \<Longrightarrow> dropWhile P xs = []"
  by (induction xs) auto

lemma strip_with_Nil: "strip_with sp [] = []"
  by (simp add: strip_with_def)

lemma strip_with_snoc: "sp x \<Longrightarrow> strip_with sp (b @ [x]) = strip_with sp b"
proof (cases "\<forall>c\<in>set b. sp c")
  case True
  assume "sp x"
  with True have "\<forall>c\<in>set (b @ [x]). sp c" by simp
  then have "dropWhile sp (b @ [x]) = []" by (rule dropWhile_all)
  moreover from True have "dropWhile sp b = []" by (rule dropWhile_all)
  ultimately show ?thesis by (simp only: strip_with_def)
next
  case False
  assume "sp x"
  from False have "dropWhile sp (b @ [x]) = dropWhile sp b @ [x]"
    by (auto simp: dropWhile_append1)
  with \<open>sp x\<close> show ?thesis by (simp add: strip_with_def)
qed

lemma set_strip_with: "set (strip_with sp s) \<subseteq> set s"
  unfolding strip_with_def by (auto dest!: set_dropWhileD)

lemma strip_with_last: "strip_with sp s \<noteq> [] \<Longrightarrow> \<not> sp (last (strip_with sp s))"
  unfolding strip_with_def by (simp add: last_rev hd_dropWhile)

lemma strip_with_hd: "strip_with sp s \<noteq> [] \<Longrightarrow> \<not> sp (hd (strip_with sp s))"
proof -
  assume ne: "strip_with sp s \<noteq> []"
  let ?a = "dropWhile sp s"
  from ne have b: "dropWhile sp (rev ?a) \<noteq> []" by (simp add: strip_with_def)
  have a: "?a \<noteq> []"
  proof
    assume "?a = []"
    with b show False by simp
  qed
  have "hd (strip_with sp s) = last (dropWhile sp (rev ?a))"
    by (simp add: strip_with_def hd_rev)
  also have "\<dots> = last (rev ?a)" using b by (rule last_dropWhile_keep)
  also have "\<dots> = hd ?a" by (simp add: last_rev)
  finally show ?thesis using hd_dropWhile [OF a] by simp
qed

lemma strip_with_fixed: "s \<noteq> [] \<Longrightarrow> \<not> sp (hd s) \<Longrightarrow> \<not> sp (last s) \<Longrightarrow> strip_with sp s = s"
  by (simp add: strip_with_def dropWhile_fixed hd_rev)

lemma strip_with_idem: "strip_with sp (strip_with sp s) = strip_with sp s"
proof (cases "strip_with sp s = []")
  case True
  show ?thesis unfolding True by (rule strip_with_Nil)
next
  case False
  then show ?thesis by (simp add: strip_with_fixed strip_with_hd strip_with_last)
qed

lemma strip_with_nonempty:
  assumes "t \<noteq> []" and "\<not> sp (last t)"
  shows "strip_with sp t \<noteq> []"
proof -
  let ?a = "dropWhile sp t"
  have "last t \<in> set t" using assms(1) by simp
  with assms(2) have "\<not> (\<forall>c\<in>set t. sp c)" by blast
  then have a: "?a \<noteq> []" by (simp add: dropWhile_eq_Nil_conv)
  then have "last ?a = last t" by (rule last_dropWhile_keep)
  with assms(2) a have "dropWhile sp (rev ?a) = rev ?a"
    by (simp add: dropWhile_fixed hd_rev)
  then have "strip_with sp t = ?a" by (simp add: strip_with_def)
  with a show ?thesis by simp
qed

lemma strip_tl_nonempty:
  assumes "2 \<le> length (strip_with sp s)"
  shows "strip_with sp (tl (strip_with sp s)) \<noteq> []"
proof -
  let ?r = "strip_with sp s"
  from assms have ne: "?r \<noteq> []" by auto
  from assms have tne: "tl ?r \<noteq> []" by (cases ?r) auto
  have "last (tl ?r) = last ?r" using tne by (simp add: last_tl)
  then have "\<not> sp (last (tl ?r))" using strip_with_last [OF ne] by simp
  with tne show ?thesis by (rule strip_with_nonempty)
qed

subsection \<open>The rewrite of the mod-list file\<close>

lemma modified_lines_map:
  "modified_lines lines enabled disabled =
     map (\<lambda>raw. emitted_sign enabled disabled raw # mod_name raw @ ''\<newline>'') (filter kept lines)"
  by (induction lines) (simp_all add: kept_def mod_name_def emitted_sign_def Let_def)

lemma py_isspace_LF: "py_isspace CHR ''\<newline>''"
  by (simp add: py_isspace_def)

lemma py_isspace_CR: "py_isspace (CHR 0x0D)"
  by (simp add: py_isspace_def)

lemma not_space_plus_minus: "\<not> py_isspace CHR ''+''" "\<not> py_isspace CHR ''-''"
  by (simp_all add: py_isspace_def)

lemma kept_strip_nonempty: "kept raw \<Longrightarrow> py_strip raw \<noteq> []"
  by (auto simp: kept_def)

lemma emitted_sign_not_space: "kept raw \<Longrightarrow> \<not> py_isspace (emitted_sign enabled disabled raw)"
proof -
  assume "kept raw"
  then have "py_strip raw \<noteq> []" by (rule kept_strip_nonempty)
  then have "\<not> py_isspace (hd (py_strip raw))"
    unfolding py_strip_def by (rule strip_with_hd)
  then show ?thesis by (simp add: emitted_sign_def not_space_plus_minus)
qed

lemma mod_name_nonempty: "kept raw \<Longrightarrow> mod_name raw \<noteq> []"
  using strip_tl_nonempty [of py_isspace raw] by (simp add: kept_def mod_name_def py_strip_def)

lemma mod_name_ends:
  "kept raw \<Longrightarrow> \<not> py_isspace (hd (mod_name raw)) \<and> \<not> py_isspace (last (mod_name raw))"
  using mod_name_nonempty [of raw]
  by (simp add: mod_name_def py_strip_def strip_with_hd strip_with_last)

lemma strip_emitted:
  assumes "kept raw"
  shows "py_strip (emitted_sign enabled disabled raw # mod_name raw @ ''\<newline>'')
           = emitted_sign enabled disabled raw # mod_name raw"
proof -
  let ?s = "emitted_sign enabled disabled raw" and ?n = "mod_name raw"
  have "strip_with py_isspace ((?s # ?n) @ [CHR ''\<newline>'']) = strip_with py_isspace (?s # ?n)"
    using py_isspace_LF by (rule strip_with_snoc)
  moreover have "strip_with py_isspace (?s # ?n) = ?s # ?n"
    using emitted_sign_not_space [OF assms] mod_name_ends [OF assms] mod_name_nonempty [OF assms]
    by (intro strip_with_fixed) simp_all
  ultimately show ?thesis by (simp add: py_strip_def)
qed

lemma mod_name_emitted:
  assumes "kept raw"
  shows "mod_name (emitted_sign enabled disabled raw # mod_name raw @ ''\<newline>'') = mod_name raw"
proof -
  have "py_strip (mod_name raw) = mod_name raw"
    by (simp add: mod_name_def py_strip_def strip_with_idem)
  then show ?thesis
    using strip_emitted [OF assms, of enabled disabled]
    by (simp add: mod_name_def [of "_ # _"])
qed

lemma kept_emitted:
  assumes "kept raw"
  shows "kept (emitted_sign enabled disabled raw # mod_name raw @ ''\<newline>'')"
  using strip_emitted [OF assms, of enabled disabled] mod_name_nonempty [OF assms]
  by (cases "mod_name raw") (simp_all add: kept_def [of "_ # _"])

lemma emitted_sign_emitted:
  assumes "kept raw"
  shows "emitted_sign enabled disabled (emitted_sign enabled disabled raw # mod_name raw @ ''\<newline>'')
           = emitted_sign enabled disabled raw"
  using strip_emitted [OF assms, of enabled disabled] mod_name_emitted [OF assms, of enabled disabled]
  by (simp add: emitted_sign_def [of _ _ "_ # _"]) (simp add: emitted_sign_def)

lemma modified_lines_idem:
  "modified_lines (modified_lines lines enabled disabled) enabled disabled
     = modified_lines lines enabled disabled"
proof -
  let ?f = "\<lambda>raw. emitted_sign enabled disabled raw # mod_name raw @ ''\<newline>''"
  have "map ?f (filter kept (map ?f (filter kept ls))) = map ?f (filter kept ls)" for ls
    by (induction ls) (simp_all add: kept_emitted mod_name_emitted emitted_sign_emitted)
  then show ?thesis by (simp add: modified_lines_map)
qed

lemma translate_newlines_no_CR: "CHR 0x0D \<notin> set (translate_newlines t)"
  by (induction t rule: translate_newlines.induct) auto

lemma translate_newlines_fixed: "CHR 0x0D \<notin> set t \<Longrightarrow> translate_newlines t = t"
  by (induction t rule: translate_newlines.induct) auto

lemma lines_keepends_line:
  "l \<in> set (lines_keepends t) \<Longrightarrow> set l \<subseteq> set t \<and> CHR ''\<newline>'' \<notin> set (butlast l)"
proof (induction t arbitrary: l)
  case Nil
  then show ?case by simp
next
  case (Cons c cs)
  show ?case
  proof (cases "c = CHR ''\<newline>''")
    case True
    with Cons show ?thesis by auto
  next
    case False
    show ?thesis
    proof (cases "lines_keepends cs")
      case Nil
      with False Cons.prems show ?thesis by simp
    next
      case (Cons k ks)
      have k: "set k \<subseteq> set cs \<and> CHR ''\<newline>'' \<notin> set (butlast k)"
        using Cons.IH [of k] Cons by simp
      from False Cons Cons.prems have "l = c # k \<or> l \<in> set ks" by simp
      then show ?thesis
      proof
        assume "l = c # k"
        with k False show ?thesis by (cases k) auto
      next
        assume "l \<in> set ks"
        then have "l \<in> set (lines_keepends cs)" using Cons by simp
        from Cons.IH [OF this] show ?thesis by auto
      qed
    qed
  qed
qed

lemma lines_keepends_terminated:
  "CHR ''\<newline>'' \<notin> set b \<Longrightarrow> lines_keepends (b @ CHR ''\<newline>'' # t) = (b @ ''\<newline>'') # lines_keepends t"
  by (induction b) auto

lemma lines_keepends_concat:
  "\<forall>l\<in>set ls. \<exists>b. l = b @ ''\<newline>'' \<and> CHR ''\<newline>'' \<notin> set b \<Longrightarrow> lines_keepends (concat ls) = ls"
proof (induction ls)
  case Nil
  then show ?case by simp
next
  case (Cons l ls)
  then obtain b where "l = b @ ''\<newline>''" "CHR ''\<newline>'' \<notin> set b" by auto
  with Cons show ?case by (simp add: lines_keepends_terminated)
qed

lemma strip_line_subset:
  assumes "CHR ''\<newline>'' \<notin> set (butlast l)"
  shows "CHR ''\<newline>'' \<notin> set (py_strip l)"
proof (cases "l = [] \<or> last l \<noteq> CHR ''\<newline>''")
  case True
  then have "CHR ''\<newline>'' \<notin> set l"
    using assms by (cases l rule: rev_cases) auto
  then show ?thesis using set_strip_with [of py_isspace l] by (auto simp: py_strip_def)
next
  case False
  then have l: "l = butlast l @ [CHR ''\<newline>'']" by (cases l rule: rev_cases) auto
  have "strip_with py_isspace (butlast l @ [CHR ''\<newline>'']) = strip_with py_isspace (butlast l)"
    using py_isspace_LF by (rule strip_with_snoc)
  with l have "py_strip l = py_strip (butlast l)"
    by (simp add: py_strip_def)
  then show ?thesis using assms set_strip_with [of py_isspace "butlast l"]
    by (auto simp: py_strip_def)
qed

lemma mod_name_subset: "set (mod_name raw) \<subseteq> set (py_strip raw)"
proof -
  have "set (mod_name raw) \<subseteq> set (tl (py_strip raw))"
    unfolding mod_name_def py_strip_def by (rule set_strip_with)
  also have "\<dots> \<subseteq> set (py_strip raw)" by (cases "py_strip raw") auto
  finally show ?thesis .
qed

lemma emitted_shape:
  assumes "kept raw" and "CHR 0x0D \<notin> set raw" and "CHR ''\<newline>'' \<notin> set (butlast raw)"
  shows "CHR ''\<newline>'' \<notin> set (emitted_sign enabled disabled raw # mod_name raw)
         \<and> CHR 0x0D \<notin> set (emitted_sign enabled disabled raw # mod_name raw)"
proof -
  have s: "\<not> py_isspace (emitted_sign enabled disabled raw)"
    using assms(1) by (rule emitted_sign_not_space)
  have "set (py_strip raw) \<subseteq> set raw"
    unfolding py_strip_def by (rule set_strip_with)
  with assms(2) have "CHR 0x0D \<notin> set (py_strip raw)" by blast
  moreover have "CHR ''\<newline>'' \<notin> set (py_strip raw)"
    using assms(3) by (rule strip_line_subset)
  ultimately have "CHR 0x0D \<notin> set (mod_name raw)" "CHR ''\<newline>'' \<notin> set (mod_name raw)"
    using mod_name_subset [of raw] by blast+
  moreover have "emitted_sign enabled disabled raw \<noteq> CHR ''\<newline>''"
    "emitted_sign enabled disabled raw \<noteq> CHR 0x0D"
    using s py_isspace_LF py_isspace_CR by auto
  ultimately show ?thesis by simp
qed

lemma readlines_line:
  "l \<in> set (readlines content) \<Longrightarrow> CHR 0x0D \<notin> set l \<and> CHR ''\<newline>'' \<notin> set (butlast l)"
  using lines_keepends_line [of l "translate_newlines content"]
        translate_newlines_no_CR [of content]
  by (auto simp: readlines_def)

lemma readlines_written:
  assumes "\<forall>l\<in>set ls. CHR 0x0D \<notin> set l \<and> CHR ''\<newline>'' \<notin> set (butlast l)"
  shows "readlines (writelines (modified_lines ls enabled disabled)) = modified_lines ls enabled disabled"
proof -
  let ?f = "\<lambda>raw. emitted_sign enabled disabled raw # mod_name raw @ ''\<newline>''"
  let ?outs = "map ?f (filter kept ls)"
  have shape: "CHR ''\<newline>'' \<notin> set (emitted_sign enabled disabled raw # mod_name raw)
         \<and> CHR 0x0D \<notin> set (emitted_sign enabled disabled raw # mod_name raw)"
    if "raw \<in> set ls" "kept raw" for raw
    using that assms by (intro emitted_shape) auto
  have "CHR 0x0D \<notin> set (concat ?outs)"
    using shape by auto
  then have "translate_newlines (concat ?outs) = concat ?outs"
    by (rule translate_newlines_fixed)
  moreover have "lines_keepends (concat ?outs) = ?outs"
  proof (rule lines_keepends_concat, rule ballI)
    fix l assume "l \<in> set ?outs"
    then obtain raw where r: "raw \<in> set ls" "kept raw" "l = ?f raw" by auto
    have "l = (emitted_sign enabled disabled raw # mod_name raw) @ ''\<newline>''"
      using r(3) by simp
    moreover have "CHR ''\<newline>'' \<notin> set (emitted_sign enabled disabled raw # mod_name raw)"
      using shape [OF r(1) r(2)] by blast
    ultimately show "\<exists>b. l = b @ ''\<newline>'' \<and> CHR ''\<newline>'' \<notin> set b" by blast
  qed
  ultimately show ?thesis
    by (simp add: readlines_def writelines_def modified_lines_map)
qed

lemma rewrite_text_idem:
  "writelines (modified_lines (readlines (writelines (modified_lines (readlines content) enabled disabled))) enabled disabled)
     = writelines (modified_lines (readlines content) enabled disabled)"
proof -
  have "readlines (writelines (modified_lines (readlines content) enabled disabled))
          = modified_lines (readlines content) enabled disabled"
    by (rule readlines_written) (auto dest: readlines_line)
  then show ?thesis by (simp add: modified_lines_idem)
qed

lemma modify_modlist_file_result:
  "modify_modlist_file filename enabled disabled w =
     (case modlists w filename of
        None \<Rightarrow> Inl (FileNotFoundError, w)
      | Some content \<Rightarrow>
          Inr (w\<lparr>modlists := (modlists w)(filename \<mapsto>
                 concat (map (\<lambda>raw. emitted_sign enabled disabled raw # mod_name raw @ ''\<newline>'')
                           (filter kept (readlines content))))\<rparr>))"
  by (simp add: modify_modlist_file_def writelines_def modified_lines_map split: option.splits)

lemma modified_lines_normal:
  assumes "out \<in> set (modified_lines lines enabled disabled)"
  shows "\<exists>raw \<in> set lines. normal_line raw out"
proof -
  from assms obtain raw where r: "raw \<in> set lines" "kept raw"
      "out = emitted_sign enabled disabled raw # mod_name raw @ ''\<newline>''"
    by (auto simp: modified_lines_map)
  have s: "emitted_sign enabled disabled raw = CHR ''+'' \<or> emitted_sign enabled disabled raw = CHR ''-''
        \<or> emitted_sign enabled disabled raw = hd (py_strip raw)"
    by (simp add: emitted_sign_def)
  have h: "\<not> py_isspace (hd (py_strip raw))"
    using kept_strip_nonempty [OF r(2)] unfolding py_strip_def by (rule strip_with_hd)
  have "normal_line raw out"
    using s h r(2,3) mod_name_nonempty [OF r(2)] mod_name_ends [OF r(2)]
    by (auto simp: normal_line_def Let_def mod_name_def kept_def)
  with r(1) show ?thesis by blast
qed

text \<open>
  C2. The file that \<open>modify_modlist_file\<close> writes holds the lines of the kept input
  lines, in the order of the input, each with the sign \<open>+\<close> when its mod name is in the
  enabled list, else \<open>-\<close> when it is in the disabled list, else its own sign; so does
  the loop over the lines.  The lines \<open>+foo\<close>, \<open>-bar\<close>, \<open>+baz\<close> with \<open>bar\<close> enabled and
  nothing disabled give \<open>+foo\<close>, \<open>+bar\<close>, \<open>+baz\<close>, each emitted with its line
  terminator.
\<close>

theorem modify_modlist_file_order_and_signs:
  "modify_modlist_file filename enabled disabled w =
     (case modlists w filename of
        None \<Rightarrow> Inl (FileNotFoundError, w)
      | Some content \<Rightarrow>
          Inr (w\<lparr>modlists := (modlists w)(filename \<mapsto>
                 concat (map (\<lambda>raw. emitted_sign enabled disabled raw # mod_name raw @ ''\<newline>'')
                           (filter kept (readlines content))))\<rparr>))
   \<and> modified_lines lines enabled disabled =
       map (\<lambda>raw. emitted_sign enabled disabled raw # mod_name raw @ ''\<newline>'') (filter kept lines)
   \<and> modified_lines [''+foo'', ''-bar'', ''+baz''] [''bar''] []
       = [''+foo\<newline>'', ''+bar\<newline>'', ''+baz\<newline>'']
   \<and> modify_modlist_file filename [''bar''] []
         (w\<lparr>modlists := (modlists w)(filename \<mapsto> ''+foo\<newline>-bar\<newline>+baz\<newline>'')\<rparr>)
       = Inr (w\<lparr>modlists := (modlists w)(filename \<mapsto> ''+foo\<newline>+bar\<newline>+baz\<newline>'')\<rparr>)"
proof (intro conjI)
  show "modify_modlist_file filename enabled disabled w =
     (case modlists w filename of
        None \<Rightarrow> Inl (FileNotFoundError, w)
      | Some content \<Rightarrow>
          Inr (w\<lparr>modlists := (modlists w)(filename \<mapsto>
                 concat (map (\<lambda>raw. emitted_sign enabled disabled raw # mod_name raw @ ''\<newline>'')
                           (filter kept (readlines content))))\<rparr>))"
    by (rule modify_modlist_file_result)
  show "modified_lines lines enabled disabled =
     map (\<lambda>raw. emitted_sign enabled disabled raw # mod_name raw @ ''\<newline>'') (filter kept lines)"
    by (rule modified_lines_map)
  show "modified_lines [''+foo'', ''-bar'', ''+baz''] [''bar''] []
       = [''+foo\<newline>'', ''+bar\<newline>'', ''+baz\<newline>'']"
    by (simp add: py_strip_def strip_with_def py_isspace_def)
  show "modify_modlist_file filename [''bar''] []
         (w\<lparr>modlists := (modlists w)(filename \<mapsto> ''+foo\<newline>-bar\<newline>+baz\<newline>'')\<rparr>)
       = Inr (w\<lparr>modlists := (modlists w)(filename \<mapsto> ''+foo\<newline>+bar\<newline>+baz\<newline>'')\<rparr>)"
    by (simp add: modify_modlist_file_def readlines_def writelines_def
                  py_strip_def strip_with_def py_isspace_def)
qed

text \<open>
  C6. The rewrite is idempotent: when \<open>modify_modlist_file\<close> has rewritten a file, a
  second call with the same two lists leaves every file, and the rest of the state, as
  the first call left it.
\<close>

theorem modify_modlist_file_idempotent:
  "modify_modlist_file filename enabled disabled w = Inr w' \<Longrightarrow>
     modify_modlist_file filename enabled disabled w' = Inr w'"
proof -
  assume a: "modify_modlist_file filename enabled disabled w = Inr w'"
  then obtain content where c: "modlists w filename = Some content"
    by (auto simp: modify_modlist_file_def split: option.splits)
  let ?t = "writelines (modified_lines (readlines content) enabled disabled)"
  from a c have w': "w' = w\<lparr>modlists := (modlists w)(filename \<mapsto> ?t)\<rparr>"
    by (simp add: modify_modlist_file_def)
  then have "modlists w' filename = Some ?t" by simp
  then show ?thesis
    using rewrite_text_idem [of content enabled disabled]
    by (simp add: modify_modlist_file_def w')
qed

theorem modify_modlist_file_idempotent_witness:
  "modify_modlist_file ''Default'' [''bar''] [''baz'']
      \<lparr>general = None,
       modlists = [''Default'' \<mapsto> [CHR ''+'', CHR ''f'', CHR 0x0D, CHR ''\<newline>''] @ '' -  bar \<newline>\<newline>*\<newline>+baz''],
       available_profiles = [], errors = [], calls = []\<rparr>
     = Inr \<lparr>general = None,
            modlists = [''Default'' \<mapsto> ''+f\<newline>+bar\<newline>-baz\<newline>''],
            available_profiles = [], errors = [], calls = []\<rparr>
   \<and> modify_modlist_file ''Default'' [''bar''] [''baz'']
      \<lparr>general = None,
       modlists = [''Default'' \<mapsto> ''+f\<newline>+bar\<newline>-baz\<newline>''],
       available_profiles = [], errors = [], calls = []\<rparr>
     = Inr \<lparr>general = None,
            modlists = [''Default'' \<mapsto> ''+f\<newline>+bar\<newline>-baz\<newline>''],
            available_profiles = [], errors = [], calls = []\<rparr>"
proof -
  have h: "modify_modlist_file ''Default'' [''bar''] [''baz'']
      \<lparr>general = None,
       modlists = [''Default'' \<mapsto> [CHR ''+'', CHR ''f'', CHR 0x0D, CHR ''\<newline>''] @ '' -  bar \<newline>\<newline>*\<newline>+baz''],
       available_profiles = [], errors = [], calls = []\<rparr>
     = Inr \<lparr>general = None,
            modlists = [''Default'' \<mapsto> ''+f\<newline>+bar\<newline>-baz\<newline>''],
            available_profiles = [], errors = [], calls = []\<rparr>"
    by (simp add: modify_modlist_file_def readlines_def writelines_def
                  py_strip_def strip_with_def py_isspace_def)
  from h modify_modlist_file_idempotent [OF h] show ?thesis by (rule conjI)
qed

text \<open>
  C10. Every line that \<open>modify_modlist_file\<close> emits, and so every line of the file it
  has written, is the normal form of an input line: one sign character that is no
  white space, the mod name of the line stripped of surrounding white space, not empty
  and neither starting nor ending with white space, and a newline.  So the white space
  around a line and between its sign and its name is removed also for an entry that is
  in neither list.
\<close>

theorem modify_modlist_file_normalized:
  "(\<forall>out \<in> set (modified_lines lines enabled disabled). \<exists>raw \<in> set lines. normal_line raw out)
   \<and> (modify_modlist_file filename enabled disabled w = Inr w' \<longrightarrow>
        (\<exists>content written.
            modlists w filename = Some content
          \<and> modlists w' filename = Some written
          \<and> readlines written = modified_lines (readlines content) enabled disabled
          \<and> (\<forall>out \<in> set (readlines written). \<exists>raw \<in> set (readlines content). normal_line raw out)))
   \<and> modify_modlist_file filename [''foo''] [''bar'']
         (w\<lparr>modlists := (modlists w)(filename \<mapsto> ''  *   my mod  \<newline>+ foo'')\<rparr>)
       = Inr (w\<lparr>modlists := (modlists w)(filename \<mapsto> ''*my mod\<newline>+foo\<newline>'')\<rparr>)"
proof (intro conjI impI ballI)
  fix out assume "out \<in> set (modified_lines lines enabled disabled)"
  then show "\<exists>raw \<in> set lines. normal_line raw out" by (rule modified_lines_normal)
next
  assume a: "modify_modlist_file filename enabled disabled w = Inr w'"
  then obtain content where c: "modlists w filename = Some content"
    by (auto simp: modify_modlist_file_def split: option.splits)
  let ?outs = "modified_lines (readlines content) enabled disabled"
  from a c have w': "modlists w' filename = Some (writelines ?outs)"
    by (auto simp: modify_modlist_file_def)
  have r: "readlines (writelines ?outs) = ?outs"
    by (rule readlines_written) (auto dest: readlines_line)
  have "\<forall>out \<in> set (readlines (writelines ?outs)). \<exists>raw \<in> set (readlines content). normal_line raw out"
    unfolding r by (auto dest: modified_lines_normal)
  with c w' r show "\<exists>content written.
            modlists w filename = Some content
          \<and> modlists w' filename = Some written
          \<and> readlines written = modified_lines (readlines content) enabled disabled
          \<and> (\<forall>out \<in> set (readlines written). \<exists>raw \<in> set (readlines content). normal_line raw out)"
    by blast
next
  show "modify_modlist_file filename [''foo''] [''bar'']
         (w\<lparr>modlists := (modlists w)(filename \<mapsto> ''  *   my mod  \<newline>+ foo'')\<rparr>)
       = Inr (w\<lparr>modlists := (modlists w)(filename \<mapsto> ''*my mod\<newline>+foo\<newline>'')\<rparr>)"
    by (simp add: modify_modlist_file_def readlines_def writelines_def
                  py_strip_def strip_with_def py_isspace_def)
qed

theorem modify_modlist_file_normalized_witness:
  "modify_modlist_file ''A'' [''foo''] [''bar''] (example_world\<lparr>modlists := [''A'' \<mapsto> ''  *   my mod  \<newline>'']\<rparr>)
     = Inr (example_world\<lparr>modlists := [''A'' \<mapsto> ''*my mod\<newline>'']\<rparr>)
   \<and> readlines ''*my mod\<newline>'' = [''*my mod\<newline>'']
   \<and> readlines ''  *   my mod  \<newline>'' = [''  *   my mod  \<newline>'']
   \<and> normal_line ''  *   my mod  \<newline>'' ''*my mod\<newline>''"
proof -
  let ?w = "example_world\<lparr>modlists := [''A'' \<mapsto> ''  *   my mod  \<newline>'']\<rparr>"
  let ?w' = "example_world\<lparr>modlists := [''A'' \<mapsto> ''*my mod\<newline>'']\<rparr>"
  have h: "modify_modlist_file ''A'' [''foo''] [''bar''] ?w = Inr ?w'"
    by (simp add: modify_modlist_file_def readlines_def writelines_def
                  py_strip_def strip_with_def py_isspace_def)
  have r1: "readlines ''*my mod\<newline>'' = [''*my mod\<newline>'']"
    and r2: "readlines ''  *   my mod  \<newline>'' = [''  *   my mod  \<newline>'']"
    by (simp_all add: readlines_def)
  from modify_modlist_file_normalized [of _ "[''foo'']" "[''bar'']" "''A''" ?w ?w'] h
  obtain content written where
    c: "modlists ?w ''A'' = Some content" and n: "modlists ?w' ''A'' = Some written"
    and a: "\<forall>out \<in> set (readlines written). \<exists>raw \<in> set (readlines content). normal_line raw out"
    by blast
  from c have c': "content = ''  *   my mod  \<newline>''" by simp
  from n have n': "written = ''*my mod\<newline>''" by simp
  from a have "normal_line ''  *   my mod  \<newline>'' ''*my mod\<newline>''"
    unfolding c' n' r1 r2 by simp
  with h r1 r2 show ?thesis by simp
qed

subsection \<open>Parsing an aspect ratio\<close>

text \<open>
  C4. \<open>from_string\<close> is documented to return an aspect ratio or \<open>None\<close>.  The string
  \<open>0:5\<close> splits on the colon into two substrings that \<open>int\<close> accepts, and the
  constructor, called outside the \<open>try\<close> block, raises \<open>ValueError\<close> to the caller.
\<close>

theorem from_string_zero_raises:
  "parse_ratio ''0:5'' = Some (0, 5) \<and> from_string (Some ''0:5'') = Inl ValueError"
  by (simp add: from_string_def parse_ratio_def py_int_def strip_with_def int_isspace_def
                digits_value_def is_digit_def AspectRatio_init_def)

subsection \<open>Applying a rule\<close>

lemma resolve_mods_result:
  "resolve_mods err ml ms (mods, errs) =
     (mods @ concat (map (\<lambda>m. case map_of ml m of None \<Rightarrow> [] | Some l \<Rightarrow> l) ms),
      errs @ map err (filter (\<lambda>m. map_of ml m = None) ms))"
  by (induction ms arbitrary: mods errs) (auto split: option.splits)

lemma final_collections_sets:
  "final_collections enabled disabled = Some (en, fd) \<Longrightarrow>
     set en = set enabled \<and> set fd = set disabled - set enabled"
  by (auto simp: final_collections_def list_set_def Let_def split: if_splits)

lemma modify_modlist_file_frame:
  "modify_modlist_file f en fd w = Inr w' \<Longrightarrow>
     errors w' = errors w \<and> general w' = general w
     \<and> available_profiles w' = available_profiles w \<and> calls w' = calls w"
  by (auto simp: modify_modlist_file_def Let_def split: option.splits)

lemma modify_modlist_file_raises:
  "modify_modlist_file f en fd w = Inl (e, w') \<Longrightarrow> w' = w"
  by (auto simp: modify_modlist_file_def Let_def split: option.splits)

lemma modify_modlist_file_written:
  "modify_modlist_file f en fd w = Inr w' \<Longrightarrow>
     \<exists>content. modlists w f = Some content
       \<and> modlists w' = (modlists w)(f \<mapsto> writelines (modified_lines (readlines content) en fd))"
  by (auto simp: modify_modlist_file_def Let_def split: option.splits)

lemma change_profile_Inr:
  "change_profile p w = Inr w' \<Longrightarrow>
     selected_profile w' = Some (''@ByteArray('' @ p @ '')'')
     \<and> errors w' = errors w \<and> modlists w' = modlists w
     \<and> available_profiles w' = available_profiles w \<and> calls w' = calls w"
  by (auto simp: change_profile_def selected_profile_def Let_def split: if_splits)

lemma change_profile_raises:
  "change_profile p w = Inl (e, w') \<Longrightarrow> w' = w"
  by (auto simp: change_profile_def Let_def split: if_splits)

lemma do_profile_Inr:
  assumes "do_profile self profiles w = Inr w1"
  shows "selected_profile w1 =
           (if switches profiles self then Some (''@ByteArray('' @ the (profile self) @ '')'')
            else selected_profile w)"
    and "errors w1 = errors w
           @ (case profile self of
                None \<Rightarrow> []
              | Some p \<Rightarrow> if p \<in> set profiles then [] else [NotExistingProfile (name self) p])"
    and "modlists w1 = modlists w" and "calls w1 = calls w"
    and "available_profiles w1 = available_profiles w"
  using assms
  by (auto simp: do_profile_def switches_def selected_profile_def
           split: option.splits if_splits dest!: change_profile_Inr)

lemma do_profile_raises:
  "do_profile self profiles w = Inl (e, w') \<Longrightarrow> w' = w"
  by (auto simp: do_profile_def split: option.splits if_splits dest: change_profile_raises)

lemma get_modlist_file_general:
  "general a = general b \<Longrightarrow> get_modlist_file a = get_modlist_file b"
  by (simp add: get_modlist_file_def current_profile_def)

text \<open>The outcomes of \<open>do\<close>, case by case.\<close>

lemma do_result:
  "do self profiles ml w =
     (case do_profile self profiles w of
        Inl x \<Rightarrow> Inl x
      | Inr w1 \<Rightarrow>
          (case final_collections (resolved_enable self ml) (resolved_disable self ml) of
             None \<Rightarrow>
               Inr (w1\<lparr>errors := errors w1
                  @ snd (resolve_mods (NotExistingModListEnable (name self)) ml (enable_mods self) ([], []))
                  @ snd (resolve_mods (NotExistingModListDisable (name self)) ml (disable_mods self) ([], []))\<rparr>)
           | Some (en, fd) \<Rightarrow>
               (case get_modlist_file w1 of
                  Inl e \<Rightarrow>
                    Inl (e, w1\<lparr>errors := errors w1
                      @ snd (resolve_mods (NotExistingModListEnable (name self)) ml (enable_mods self) ([], []))
                      @ snd (resolve_mods (NotExistingModListDisable (name self)) ml (disable_mods self) ([], []))\<rparr>)
                | Inr f \<Rightarrow>
                    modify_modlist_file f en fd
                      (w1\<lparr>errors := errors w1
                          @ snd (resolve_mods (NotExistingModListEnable (name self)) ml (enable_mods self) ([], []))
                          @ snd (resolve_mods (NotExistingModListDisable (name self)) ml (disable_mods self) ([], [])),
                        calls := calls w1 @ [(f, en, fd)]\<rparr>))))"
proof -
  have g: "get_modlist_file (w1\<lparr>errors := es\<rparr>) = get_modlist_file w1" for w1 es
    by (rule get_modlist_file_general) simp
  show ?thesis
    by (simp add: do_def resolved_enable_def resolved_disable_def Let_def g
             split: sum.splits prod.splits option.splits)
qed

lemma do_Inr:
  assumes "do self profiles ml w = Inr w'"
  shows "selected_profile w' =
           (if switches profiles self then Some (''@ByteArray('' @ the (profile self) @ '')'')
            else selected_profile w)"
    and "errors w' = errors w
           @ (case profile self of
                None \<Rightarrow> []
              | Some p \<Rightarrow> if p \<in> set profiles then [] else [NotExistingProfile (name self) p])
           @ snd (resolve_mods (NotExistingModListEnable (name self)) ml (enable_mods self) ([], []))
           @ snd (resolve_mods (NotExistingModListDisable (name self)) ml (disable_mods self) ([], []))"
    and "available_profiles w' = available_profiles w"
    and "case final_collections (resolved_enable self ml) (resolved_disable self ml) of
           None \<Rightarrow> calls w' = calls w \<and> modlists w' = modlists w
         | Some (en, fd) \<Rightarrow>
             (\<exists>f content. get_modlist_file w' = Inr f \<and> modlists w f = Some content
                \<and> calls w' = calls w @ [(f, en, fd)]
                \<and> modlists w' = (modlists w)(f \<mapsto> writelines (modified_lines (readlines content) en fd)))"
proof -
  from assms obtain w1 where p: "do_profile self profiles w = Inr w1"
    by (auto simp: do_result split: sum.splits)
  note p1 = do_profile_Inr [OF p]
  let ?es = "errors w1
      @ snd (resolve_mods (NotExistingModListEnable (name self)) ml (enable_mods self) ([], []))
      @ snd (resolve_mods (NotExistingModListDisable (name self)) ml (disable_mods self) ([], []))"
  show "selected_profile w' =
           (if switches profiles self then Some (''@ByteArray('' @ the (profile self) @ '')'')
            else selected_profile w)"
    using assms p p1(1)
    by (auto simp: do_result selected_profile_def
             split: sum.splits option.splits prod.splits dest!: modify_modlist_file_frame)
  show "errors w' = errors w
           @ (case profile self of
                None \<Rightarrow> []
              | Some p \<Rightarrow> if p \<in> set profiles then [] else [NotExistingProfile (name self) p])
           @ snd (resolve_mods (NotExistingModListEnable (name self)) ml (enable_mods self) ([], []))
           @ snd (resolve_mods (NotExistingModListDisable (name self)) ml (disable_mods self) ([], []))"
    using assms p p1(2)
    by (auto simp: do_result split: sum.splits option.splits prod.splits
             dest!: modify_modlist_file_frame)
  show "available_profiles w' = available_profiles w"
    using assms p p1(5)
    by (auto simp: do_result split: sum.splits option.splits prod.splits
             dest!: modify_modlist_file_frame)
  show "case final_collections (resolved_enable self ml) (resolved_disable self ml) of
           None \<Rightarrow> calls w' = calls w \<and> modlists w' = modlists w
         | Some (en, fd) \<Rightarrow>
             (\<exists>f content. get_modlist_file w' = Inr f \<and> modlists w f = Some content
                \<and> calls w' = calls w @ [(f, en, fd)]
                \<and> modlists w' = (modlists w)(f \<mapsto> writelines (modified_lines (readlines content) en fd)))"
  proof (cases "final_collections (resolved_enable self ml) (resolved_disable self ml)")
    case None
    with assms p p1 show ?thesis by (auto simp: do_result)
  next
    case (Some a)
    obtain en fd where a: "a = (en, fd)" by (cases a)
    from assms p Some a obtain f where
      f: "get_modlist_file w1 = Inr f"
      and m: "modify_modlist_file f en fd (w1\<lparr>errors := ?es, calls := calls w1 @ [(f, en, fd)]\<rparr>) = Inr w'"
      by (auto simp: do_result split: sum.splits)
    from modify_modlist_file_frame [OF m] have "general w' = general w1" and c: "calls w' = calls w1 @ [(f, en, fd)]"
      by simp_all
    then have g: "get_modlist_file w' = Inr f"
      using f get_modlist_file_general [of w' w1] by simp
    from modify_modlist_file_written [OF m] obtain content where
      "modlists w1 f = Some content"
      "modlists w' = (modlists w1)(f \<mapsto> writelines (modified_lines (readlines content) en fd))"
      by auto
    with g c p1(3,4) Some a show ?thesis by auto
  qed
qed

lemma do_calls:
  "calls (outcome (do self profiles ml w)) = calls w
   \<or> (\<exists>f en fd. final_collections (resolved_enable self ml) (resolved_disable self ml) = Some (en, fd)
         \<and> calls (outcome (do self profiles ml w)) = calls w @ [(f, en, fd)])"
proof (cases "do_profile self profiles w")
  case (Inl x)
  then show ?thesis
    by (cases x) (auto simp: do_result outcome_def dest: do_profile_raises)
next
  case (Inr w1)
  note p1 = do_profile_Inr [OF Inr]
  show ?thesis
  proof (cases "final_collections (resolved_enable self ml) (resolved_disable self ml)")
    case None
    with Inr p1 show ?thesis by (simp add: do_result outcome_def)
  next
    case (Some a)
    obtain en fd where a: "a = (en, fd)" by (cases a)
    show ?thesis
    proof (cases "get_modlist_file w1")
      case (Inl e)
      with Inr Some a p1 show ?thesis by (simp add: do_result outcome_def)
    next
      case f: (Inr f)
      let ?w2 = "w1\<lparr>errors := errors w1
          @ snd (resolve_mods (NotExistingModListEnable (name self)) ml (enable_mods self) ([], []))
          @ snd (resolve_mods (NotExistingModListDisable (name self)) ml (disable_mods self) ([], [])),
        calls := calls w1 @ [(f, en, fd)]\<rparr>"
      have d: "do self profiles ml w = modify_modlist_file f en fd ?w2"
        using Inr Some a f by (simp add: do_result)
      have "calls (outcome (modify_modlist_file f en fd ?w2)) = calls w @ [(f, en, fd)]"
      proof (cases "modify_modlist_file f en fd ?w2")
        case (Inl x)
        obtain e w' where x: "x = (e, w')" by (cases x)
        with Inl have "w' = ?w2" by (auto dest: modify_modlist_file_raises)
        with Inl x p1(4) show ?thesis by (simp add: outcome_def)
      next
        case (Inr w')
        from modify_modlist_file_frame [OF Inr] p1(4) Inr show ?thesis
          by (simp add: outcome_def)
      qed
      with d Some a show ?thesis by auto
    qed
  qed
qed

text \<open>
  C3. When \<open>do\<close> returns, it has called the rewrite exactly when \<open>final_collections\<close>
  gives two collections, on the mod-list file of the active profile and with those
  collections: the deduplicated enable collection, and the deduplicated disable
  collection without the names of the enable collection, so that no name is in both.
  Whether \<open>do\<close> returns or raises, it makes no other call of the rewrite.  With
  \<open>enable_mods\<close> and \<open>disable_mods\<close> both naming the group \<open>A\<close> of the single mod
  \<open>modX\<close>, the rewrite is called with \<open>modX\<close> enabled and nothing disabled, and the file
  has \<open>modX\<close> enabled.
\<close>

theorem do_enable_wins:
  "(do self profiles ml w = Inr w' \<longrightarrow>
      (case final_collections (resolved_enable self ml) (resolved_disable self ml) of
         None \<Rightarrow> calls w' = calls w \<and> modlists w' = modlists w
       | Some (en, fd) \<Rightarrow>
           (\<exists>f content. get_modlist_file w' = Inr f \<and> modlists w f = Some content
              \<and> calls w' = calls w @ [(f, en, fd)]
              \<and> modlists w' = (modlists w)(f \<mapsto> writelines (modified_lines (readlines content) en fd)))))
   \<and> (calls (outcome (do self profiles ml w)) = calls w
        \<or> (\<exists>f en fd. final_collections (resolved_enable self ml) (resolved_disable self ml) = Some (en, fd)
              \<and> calls (outcome (do self profiles ml w)) = calls w @ [(f, en, fd)]))
   \<and> (case final_collections (resolved_enable self ml) (resolved_disable self ml) of
         None \<Rightarrow> resolved_enable self ml = [] \<and> resolved_disable self ml = []
       | Some (en, fd) \<Rightarrow>
           set en = set (resolved_enable self ml)
         \<and> set fd = set (resolved_disable self ml) - set (resolved_enable self ml)
         \<and> set en \<inter> set fd = {}
         \<and> distinct en \<and> distinct fd)
   \<and> final_collections
        (resolved_enable (self\<lparr>enable_mods := [''A''], disable_mods := [''A'']\<rparr>) [(''A'', [''modX''])])
        (resolved_disable (self\<lparr>enable_mods := [''A''], disable_mods := [''A'']\<rparr>) [(''A'', [''modX''])])
       = Some ([''modX''], [])
   \<and> do rule_conflict profiles [(''A'', [''modX''])]
         (example_world\<lparr>modlists := [''A'' \<mapsto> ''-modX\<newline>+other\<newline>'']\<rparr>)
       = Inr (example_world\<lparr>modlists := [''A'' \<mapsto> ''+modX\<newline>+other\<newline>''],
                              calls := [(''A'', [''modX''], [])]\<rparr>)"
proof (intro conjI impI)
  assume "do self profiles ml w = Inr w'"
  then show "case final_collections (resolved_enable self ml) (resolved_disable self ml) of
         None \<Rightarrow> calls w' = calls w \<and> modlists w' = modlists w
       | Some (en, fd) \<Rightarrow>
           (\<exists>f content. get_modlist_file w' = Inr f \<and> modlists w f = Some content
              \<and> calls w' = calls w @ [(f, en, fd)]
              \<and> modlists w' = (modlists w)(f \<mapsto> writelines (modified_lines (readlines content) en fd)))"
    by (rule do_Inr(4))
next
  show "calls (outcome (do self profiles ml w)) = calls w
        \<or> (\<exists>f en fd. final_collections (resolved_enable self ml) (resolved_disable self ml) = Some (en, fd)
              \<and> calls (outcome (do self profiles ml w)) = calls w @ [(f, en, fd)])"
    by (rule do_calls)
next
  show "case final_collections (resolved_enable self ml) (resolved_disable self ml) of
         None \<Rightarrow> resolved_enable self ml = [] \<and> resolved_disable self ml = []
       | Some (en, fd) \<Rightarrow>
           set en = set (resolved_enable self ml)
         \<and> set fd = set (resolved_disable self ml) - set (resolved_enable self ml)
         \<and> set en \<inter> set fd = {}
         \<and> distinct en \<and> distinct fd"
    by (auto simp: final_collections_def list_set_def Let_def)
next
  show "final_collections
        (resolved_enable (self\<lparr>enable_mods := [''A''], disable_mods := [''A'']\<rparr>) [(''A'', [''modX''])])
        (resolved_disable (self\<lparr>enable_mods := [''A''], disable_mods := [''A'']\<rparr>) [(''A'', [''modX''])])
       = Some ([''modX''], [])"
    by (simp add: final_collections_def list_set_def resolved_enable_def resolved_disable_def)
next
  show "do rule_conflict profiles [(''A'', [''modX''])]
         (example_world\<lparr>modlists := [''A'' \<mapsto> ''-modX\<newline>+other\<newline>'']\<rparr>)
       = Inr (example_world\<lparr>modlists := [''A'' \<mapsto> ''+modX\<newline>+other\<newline>''],
                              calls := [(''A'', [''modX''], [])]\<rparr>)"
    by (simp add: do_def do_profile_def rule_conflict_def example_world_def
          final_collections_def list_set_def get_modlist_file_def current_profile_def
          modify_modlist_file_def readlines_def writelines_def
          py_strip_def strip_with_def py_isspace_def)
qed

theorem do_enable_wins_witness:
  "do rule_conflict [] [(''A'', [''modX''])]
       (example_world\<lparr>modlists := [''A'' \<mapsto> ''-modX\<newline>+other\<newline>'']\<rparr>)
     = Inr (example_world\<lparr>modlists := [''A'' \<mapsto> ''+modX\<newline>+other\<newline>''],
                            calls := [(''A'', [''modX''], [])]\<rparr>)
   \<and> final_collections (resolved_enable rule_conflict [(''A'', [''modX''])])
        (resolved_disable rule_conflict [(''A'', [''modX''])]) = Some ([''modX''], [])
   \<and> get_modlist_file (example_world\<lparr>modlists := [''A'' \<mapsto> ''+modX\<newline>+other\<newline>''],
                                       calls := [(''A'', [''modX''], [])]\<rparr>) = Inr ''A''
   \<and> calls (example_world\<lparr>modlists := [''A'' \<mapsto> ''+modX\<newline>+other\<newline>''],
                            calls := [(''A'', [''modX''], [])]\<rparr>)
       = calls (example_world\<lparr>modlists := [''A'' \<mapsto> ''-modX\<newline>+other\<newline>'']\<rparr>)
           @ [(''A'', [''modX''], [])]"
proof -
  let ?w = "example_world\<lparr>modlists := [''A'' \<mapsto> ''-modX\<newline>+other\<newline>'']\<rparr>"
  let ?w' = "example_world\<lparr>modlists := [''A'' \<mapsto> ''+modX\<newline>+other\<newline>''],
                            calls := [(''A'', [''modX''], [])]\<rparr>"
  have d: "do rule_conflict [] [(''A'', [''modX''])] ?w = Inr ?w'"
    by (simp add: do_def do_profile_def rule_conflict_def example_world_def
          final_collections_def list_set_def get_modlist_file_def current_profile_def
          modify_modlist_file_def readlines_def writelines_def
          py_strip_def strip_with_def py_isspace_def)
  have c: "final_collections (resolved_enable rule_conflict [(''A'', [''modX''])])
        (resolved_disable rule_conflict [(''A'', [''modX''])]) = Some ([''modX''], [])"
    by (simp add: final_collections_def list_set_def resolved_enable_def resolved_disable_def
          rule_conflict_def)
  have g: "get_modlist_file ?w' = Inr ''A''"
    by (simp add: get_modlist_file_def current_profile_def example_world_def)
  from d c do_enable_wins [of rule_conflict "[]" "[(''A'', [''modX''])]" ?w ?w']
  obtain f where
    "get_modlist_file ?w' = Inr f" "calls ?w' = calls ?w @ [(f, [''modX''], [])]"
    by auto
  with d c g show ?thesis by simp
qed

subsection \<open>Loading the rules\<close>

lemma add_keys_keys: "fst ` set (add_keys ms d) = fst ` set d \<union> set ms"
proof (induction ms arbitrary: d)
  case Nil
  then show ?case by simp
next
  case (Cons m ms)
  show ?case
  proof (cases "map_of d m = None")
    case True
    then show ?thesis using Cons [of "d @ [(m, [])]"] by auto
  next
    case False
    then have "m \<in> fst ` set d" by (simp add: map_of_eq_None_iff)
    with False show ?thesis using Cons [of d] by auto
  qed
qed

lemma add_keys_values: "\<forall>v \<in> snd ` set d. v = [] \<Longrightarrow> \<forall>v \<in> snd ` set (add_keys ms d). v = []"
proof (induction ms arbitrary: d)
  case Nil
  then show ?case by simp
next
  case (Cons m ms)
  have "\<forall>v \<in> snd ` set (d @ [(m, [])]). v = []" using Cons.prems by auto
  then have "\<forall>v \<in> snd ` set (add_keys ms (d @ [(m, [])])). v = []" by (rule Cons.IH)
  moreover have "\<forall>v \<in> snd ` set (add_keys ms d). v = []" using Cons.prems by (rule Cons.IH)
  ultimately show ?case by simp
qed

lemma load_sections_inv:
  "load_sections config secs acc = Inr acc' \<Longrightarrow> loader_inv acc \<Longrightarrow> loader_inv acc'"
proof (induction config secs acc rule: load_sections.induct)
  case (1 config acc)
  then show ?case by simp
next
  case (2 config sec rest settings d)
  show ?case
  proof (cases "has_section config sec")
    case False
    with 2 show ?thesis by simp
  next
    case True
    let ?en = "nonblank (py_split CHR '','' (config_get config sec ''EnableMods'' []))"
    let ?di = "nonblank (py_split CHR '','' (config_get config sec ''DisableMods'' []))"
    let ?d = "add_keys ?di (add_keys ?en d)"
    let ?rs = "config_get config sec ''AspectRatio'' []"
    define mk where "mk ratio =
        \<lparr>name = sec,
         profile = (if config_get config sec ''Profile'' [] = [] then None
                    else Some (config_get config sec ''Profile'' [])),
         enable_mods = ?en,
         disable_mods = ?di,
         min_vram = int_or_none (config_get config sec ''MinVram'' []),
         max_vram = int_or_none (config_get config sec ''MaxVram'' []),
         aspect_ratio = ratio,
         system_language = (if config_get config sec ''SystemLanguage'' [] = [] then None
                            else Some (config_get config sec ''SystemLanguage'' []))\<rparr>"
      for ratio
    from True "2.prems"(1) obtain ratio where
      r: "from_string (if ?rs = [] then None else Some ?rs) = Inr ratio"
      and rec: "load_sections config rest (settings @ [mk ratio], ?d) = Inr acc'"
      by (auto simp: Let_def mk_def split: sum.splits)
    define c where "c = mk ratio"
    have c: "enable_mods c = ?en" "disable_mods c = ?di"
      by (simp_all add: c_def mk_def)
    note rec = rec [folded c_def]
    have keys: "fst ` set ?d = fst ` set d \<union> set ?en \<union> set ?di"
      by (simp add: add_keys_keys Un_assoc)
    have "\<forall>v \<in> snd ` set d. v = []" using "2.prems"(2) by (simp add: loader_inv_def)
    then have "\<forall>v \<in> snd ` set ?d. v = []" by (intro add_keys_values)
    moreover have "\<forall>c' \<in> set (settings @ [c]).
        set (enable_mods c') \<union> set (disable_mods c') \<subseteq> fst ` set ?d"
      using "2.prems"(2) c keys by (auto simp: loader_inv_def)
    ultimately have inv: "loader_inv (settings @ [c], ?d)"
      by (simp add: loader_inv_def)
    show ?thesis
      using "2.IH"(1) [OF True refl refl refl refl refl refl refl refl refl refl r] rec inv
      by (simp add: c_def mk_def)
  qed
qed

lemma load_sections_names:
  "load_sections config secs (settings, d) = Inr (settings', d') \<Longrightarrow>
     map name settings' = map name settings @ filter (has_section config) secs"
proof (induction config secs "(settings, d)" arbitrary: settings d rule: load_sections.induct)
  case (1 config)
  then show ?case by simp
next
  case (2 config sec rest settings d)
  show ?case
  proof (cases "has_section config sec")
    case False
    with 2 show ?thesis by simp
  next
    case True
    then show ?thesis
      using "2.prems" "2.hyps"(1) [OF True refl refl refl refl refl refl refl refl refl refl]
      by (auto simp: Let_def split: sum.splits)
  qed
qed

lemma map_of_map_keyed:
  "map_of (map (\<lambda>(k, v). if P k then (k, F k) else (k, v)) d) g
     = map_option (\<lambda>v. if P g then F g else v) (map_of d g)"
  by (induction d) auto

lemma load_configurations_groups:
  assumes "load_configurations (Some config) = Inr (settings, ml)"
    and "c \<in> set settings"
    and "g \<in> set (enable_mods c) \<union> set (disable_mods c)"
  shows "map_of ml g = Some (if has_section config g then getlist config g ''Mod'' else [])"
proof -
  let ?secs = "py_split CHR '','' (config_get config ''General'' ''Settings'' [])"
  from assms(1) obtain d where
    ld: "load_sections config ?secs ([], []) = Inr (settings, d)"
    and ml: "ml = map (\<lambda>(k, v). if has_section config k
                                  then (k, getlist config k ''Mod'') else (k, v)) d"
    by (auto simp: load_configurations_def Let_def split: sum.splits)
  have "loader_inv ([], [])" by (simp add: loader_inv_def)
  with ld have inv: "loader_inv (settings, d)" by (rule load_sections_inv)
  with assms(2,3) have "g \<in> fst ` set d" by (auto simp: loader_inv_def)
  then obtain v where v: "map_of d g = Some v"
    by (cases "map_of d g") (auto simp: map_of_eq_None_iff)
  then have "(g, v) \<in> set d" by (rule map_of_SomeD)
  with inv have "v = []" by (force simp: loader_inv_def)
  with v show ?thesis
    unfolding ml by (simp add: map_of_map_keyed)
qed

text \<open>
  C8. After \<open>load_configurations\<close>, every group name in the \<open>enable_mods\<close> or
  \<open>disable_mods\<close> of a loaded rule is a key of the returned mapping, and a group
  without a section of its name maps to the empty list.  Without a rule file there is
  no rule.
\<close>

theorem load_configurations_group_keys:
  "load_configurations None = Inr ([], [])
   \<and> (load_configurations (Some config) = Inr (settings, ml)
        \<and> c \<in> set settings \<and> g \<in> set (enable_mods c) \<union> set (disable_mods c)
      \<longrightarrow> g \<in> fst ` set ml
        \<and> (\<exists>mods. map_of ml g = Some mods)
        \<and> (\<not> has_section config g \<longrightarrow> map_of ml g = Some []))"
proof (intro conjI impI)
  show "load_configurations None = Inr ([], [])"
    by (simp add: load_configurations_def)
next
  assume a: "load_configurations (Some config) = Inr (settings, ml)
        \<and> c \<in> set settings \<and> g \<in> set (enable_mods c) \<union> set (disable_mods c)"
  then have m: "map_of ml g = Some (if has_section config g then getlist config g ''Mod'' else [])"
    by (intro load_configurations_groups [of config settings ml c g]) simp_all
  then show "\<exists>mods. map_of ml g = Some mods" by simp
  from m have "(g, if has_section config g then getlist config g ''Mod'' else []) \<in> set ml"
    by (rule map_of_SomeD)
  then show "g \<in> fst ` set ml" by force
  show "map_of ml g = Some []" if "\<not> has_section config g"
    using m that by simp
qed

theorem load_configurations_group_keys_witness:
  "load_configurations (Some example_config) = Inr ([example_rule], example_groups)
   \<and> ''Missing'' \<in> set (enable_mods example_rule)
   \<and> \<not> has_section example_config ''Missing''
   \<and> ''Missing'' \<in> fst ` set example_groups
   \<and> map_of example_groups ''Missing'' = Some []"
proof -
  have l: "load_configurations (Some example_config) = Inr ([example_rule], example_groups)"
    by code_simp
  have e: "''Missing'' \<in> set (enable_mods example_rule)"
    by (simp add: example_rule_def)
  have h: "\<not> has_section example_config ''Missing''"
    by (simp add: example_config_def)
  from l e h
    load_configurations_group_keys
      [of example_config "[example_rule]" example_groups example_rule "''Missing''"]
  show ?thesis by simp
qed

lemma resolve_mods_no_errors:
  "set ms \<subseteq> fst ` set ml \<Longrightarrow> snd (resolve_mods err ml ms ([], [])) = []"
  by (auto simp: resolve_mods_result filter_empty_conv map_of_eq_None_iff)

text \<open>
  C9. For the pair that \<open>load_configurations\<close> returns, every name in the
  \<open>enable_mods\<close> and \<open>disable_mods\<close> of every configuration is a key of the mapping.
  So the two loops of \<open>do\<close> log no missing mod list: when \<open>do\<close> is called with that
  mapping, the only error it can log is that of a profile that does not exist.
\<close>

theorem loaded_groups_resolve:
  "load_configurations ini = Inr (settings, ml) \<and> c \<in> set settings
   \<longrightarrow> set (enable_mods c) \<union> set (disable_mods c) \<subseteq> fst ` set ml
     \<and> snd (resolve_mods (NotExistingModListEnable (name c)) ml (enable_mods c) ([], [])) = []
     \<and> snd (resolve_mods (NotExistingModListDisable (name c)) ml (disable_mods c) ([], [])) = []
     \<and> (\<forall>profiles w w'. do c profiles ml w = Inr w' \<longrightarrow>
           errors w' = errors w
             @ (case profile c of
                  None \<Rightarrow> []
                | Some p \<Rightarrow> if p \<in> set profiles then [] else [NotExistingProfile (name c) p]))"
proof
  assume a: "load_configurations ini = Inr (settings, ml) \<and> c \<in> set settings"
  then obtain config where f: "ini = Some config"
    by (cases ini) (auto simp: load_configurations_def)
  have keys: "set (enable_mods c) \<union> set (disable_mods c) \<subseteq> fst ` set ml"
  proof
    fix g assume g: "g \<in> set (enable_mods c) \<union> set (disable_mods c)"
    have "map_of ml g = Some (if has_section config g then getlist config g ''Mod'' else [])"
      using a g unfolding f by (intro load_configurations_groups [of config settings ml c g]) simp_all
    then have "(g, if has_section config g then getlist config g ''Mod'' else []) \<in> set ml"
      by (rule map_of_SomeD)
    then show "g \<in> fst ` set ml" by force
  qed
  then have e: "snd (resolve_mods (NotExistingModListEnable (name c)) ml (enable_mods c) ([], [])) = []"
    and d: "snd (resolve_mods (NotExistingModListDisable (name c)) ml (disable_mods c) ([], [])) = []"
    by (simp_all add: resolve_mods_no_errors)
  have "errors w' = errors w
             @ (case profile c of
                  None \<Rightarrow> []
                | Some p \<Rightarrow> if p \<in> set profiles then [] else [NotExistingProfile (name c) p])"
    if "do c profiles ml w = Inr w'" for profiles w w'
    using do_Inr(2) [OF that] e d by simp
  with keys e d show "set (enable_mods c) \<union> set (disable_mods c) \<subseteq> fst ` set ml
     \<and> snd (resolve_mods (NotExistingModListEnable (name c)) ml (enable_mods c) ([], [])) = []
     \<and> snd (resolve_mods (NotExistingModListDisable (name c)) ml (disable_mods c) ([], [])) = []
     \<and> (\<forall>profiles w w'. do c profiles ml w = Inr w' \<longrightarrow>
           errors w' = errors w
             @ (case profile c of
                  None \<Rightarrow> []
                | Some p \<Rightarrow> if p \<in> set profiles then [] else [NotExistingProfile (name c) p]))"
    by blast
qed

theorem loaded_groups_resolve_witness:
  "load_configurations (Some example_config) = Inr ([example_rule], example_groups)
   \<and> do example_rule [''A''] example_groups example_world
       = Inr (example_world\<lparr>modlists := [''A'' \<mapsto> ''+modA\<newline>+modB\<newline>-other\<newline>''],
                              calls := [(''A'', [''modA'', ''modB''], [])]\<rparr>)
   \<and> errors (example_world\<lparr>modlists := [''A'' \<mapsto> ''+modA\<newline>+modB\<newline>-other\<newline>''],
                             calls := [(''A'', [''modA'', ''modB''], [])]\<rparr>) = []
   \<and> snd (resolve_mods (NotExistingModListEnable (name example_rule)) example_groups
             (enable_mods example_rule) ([], [])) = []"
proof -
  have l: "load_configurations (Some example_config) = Inr ([example_rule], example_groups)"
    by code_simp
  have d: "do example_rule [''A''] example_groups example_world
       = Inr (example_world\<lparr>modlists := [''A'' \<mapsto> ''+modA\<newline>+modB\<newline>-other\<newline>''],
                              calls := [(''A'', [''modA'', ''modB''], [])]\<rparr>)"
    by (simp add: do_def do_profile_def example_rule_def example_groups_def example_world_def
          final_collections_def list_set_def get_modlist_file_def current_profile_def
          modify_modlist_file_def readlines_def writelines_def
          py_strip_def strip_with_def py_isspace_def)
  from l d
    loaded_groups_resolve [of "Some example_config" "[example_rule]" example_groups example_rule]
  show ?thesis by (simp add: example_world_def)
qed

subsection \<open>Applying every matching rule\<close>

lemma apply_configurations_do_all:
  "list_all (check_returns self) cs \<Longrightarrow>
     apply_configurations self profiles cs w
       = do_all (filter (matching self) cs) profiles (pa_mod_lists self) w"
proof (induction cs arbitrary: w)
  case Nil
  then show ?case by simp
next
  case (Cons c cs)
  then obtain b where b: "check c (pa_vram self) (pa_aspect_ratio self) (pa_system_language self) = Inr b"
    by (auto simp: check_returns_def split: sum.splits)
  from Cons have IH: "apply_configurations self profiles cs w'
       = do_all (filter (matching self) cs) profiles (pa_mod_lists self) w'" for w'
    by simp
  have mc: "matching self c = b" using b by (simp add: matching_def)
  show ?case
    using b by (cases b) (simp_all add: mc IH split: sum.splits)
qed

lemma do_all_selected_profile:
  "do_all cs profiles ml w = Inr w' \<Longrightarrow>
     selected_profile w' =
       (case filter (switches profiles) cs of
          [] \<Rightarrow> selected_profile w
        | d # ds \<Rightarrow> Some (''@ByteArray('' @ the (profile (last (d # ds))) @ '')''))"
proof (induction cs arbitrary: w)
  case Nil
  then show ?case by simp
next
  case (Cons c cs)
  from Cons.prems obtain w1 where
    d: "do c profiles ml w = Inr w1" and r: "do_all cs profiles ml w1 = Inr w'"
    by (auto split: sum.splits)
  note s1 = do_Inr(1) [OF d]
  note IH = Cons.IH [OF r]
  show ?case
  proof (cases "filter (switches profiles) cs")
    case Nil
    with IH s1 show ?thesis by simp
  next
    case (Cons d ds)
    with IH show ?thesis by simp
  qed
qed

lemma do_all_raises:
  "do_all cs profiles ml w = Inl (e, w') \<Longrightarrow>
     \<exists>cs1 c cs2 w1. cs = cs1 @ c # cs2 \<and> do_all cs1 profiles ml w = Inr w1
        \<and> do c profiles ml w1 = Inl (e, w')"
proof (induction cs arbitrary: w)
  case Nil
  then show ?case by simp
next
  case (Cons c cs)
  show ?case
  proof (cases "do c profiles ml w")
    case (Inl x)
    with Cons.prems have "do c profiles ml w = Inl (e, w')" by simp
    then have "c # cs = [] @ c # cs \<and> do_all [] profiles ml w = Inr w
        \<and> do c profiles ml w = Inl (e, w')" by simp
    then show ?thesis by blast
  next
    case (Inr w0)
    with Cons.prems have "do_all cs profiles ml w0 = Inl (e, w')" by simp
    from Cons.IH [OF this] obtain cs1 d cs2 w1 where
      "cs = cs1 @ d # cs2" "do_all cs1 profiles ml w0 = Inr w1" "do d profiles ml w1 = Inl (e, w')"
      by blast
    with Inr have "c # cs = (c # cs1) @ d # cs2 \<and> do_all (c # cs1) profiles ml w = Inr w1
        \<and> do d profiles ml w1 = Inl (e, w')" by simp
    then show ?thesis by blast
  qed
qed

text \<open>
  C7. When no \<open>check\<close> raises, \<open>set_configuration\<close> calls \<open>do\<close> on the matching
  configurations, all of them and in the order of the list of configurations, each on
  the state that the call before left, up to the first \<open>do\<close> that raises: the pass
  then ends with that exception, in the state in which that \<open>do\<close> raised it, after the
  matching configurations before it.  When the pass returns, the active profile is that
  of the last matching configuration whose profile is one of the available profiles,
  and the one before the call when there is no such configuration.  The list of
  configurations that \<open>load_configurations\<close> returns has the order of the names in the
  \<open>Settings\<close> key.
\<close>

theorem set_configuration_applies_in_order:
  "(list_all (check_returns self) (pa_configurations self) \<longrightarrow>
      set_configuration self w
        = do_all (filter (matching self) (pa_configurations self))
            (get_profiles w) (pa_mod_lists self) w
    \<and> (\<forall>w'. set_configuration self w = Inr w' \<longrightarrow>
          selected_profile w' =
            (case filter (switches (get_profiles w))
                    (filter (matching self) (pa_configurations self)) of
               [] \<Rightarrow> selected_profile w
             | d # ds \<Rightarrow> Some (''@ByteArray('' @ the (profile (last (d # ds))) @ '')'')))
    \<and> (\<forall>e w'. set_configuration self w = Inl (e, w') \<longrightarrow>
          (\<exists>cs1 c cs2 w1.
              filter (matching self) (pa_configurations self) = cs1 @ c # cs2
            \<and> do_all cs1 (get_profiles w) (pa_mod_lists self) w = Inr w1
            \<and> do c (get_profiles w) (pa_mod_lists self) w1 = Inl (e, w'))))
   \<and> (load_configurations (Some config) = Inr (settings, ml) \<longrightarrow>
        map name settings
          = filter (has_section config)
              (py_split CHR '','' (config_get config ''General'' ''Settings'' [])))"
proof (intro conjI impI allI)
  assume a: "list_all (check_returns self) (pa_configurations self)"
  then show e: "set_configuration self w
        = do_all (filter (matching self) (pa_configurations self))
            (get_profiles w) (pa_mod_lists self) w"
    by (simp add: set_configuration_def apply_configurations_do_all)
  {
    fix w' assume "set_configuration self w = Inr w'"
    with e have "do_all (filter (matching self) (pa_configurations self))
            (get_profiles w) (pa_mod_lists self) w = Inr w'" by simp
    then show "selected_profile w' =
            (case filter (switches (get_profiles w))
                    (filter (matching self) (pa_configurations self)) of
               [] \<Rightarrow> selected_profile w
             | d # ds \<Rightarrow> Some (''@ByteArray('' @ the (profile (last (d # ds))) @ '')''))"
      by (rule do_all_selected_profile)
  }
  {
    fix e' w' assume "set_configuration self w = Inl (e', w')"
    with e have "do_all (filter (matching self) (pa_configurations self))
            (get_profiles w) (pa_mod_lists self) w = Inl (e', w')" by simp
    then show "\<exists>cs1 c cs2 w1.
              filter (matching self) (pa_configurations self) = cs1 @ c # cs2
            \<and> do_all cs1 (get_profiles w) (pa_mod_lists self) w = Inr w1
            \<and> do c (get_profiles w) (pa_mod_lists self) w1 = Inl (e', w')"
      by (rule do_all_raises)
  }
next
  assume "load_configurations (Some config) = Inr (settings, ml)"
  then obtain d where
    "load_sections config (py_split CHR '','' (config_get config ''General'' ''Settings'' [])) ([], [])
       = Inr (settings, d)"
    by (auto simp: load_configurations_def Let_def split: sum.splits)
  from load_sections_names [OF this]
  show "map name settings
          = filter (has_section config)
              (py_split CHR '','' (config_get config ''General'' ''Settings'' []))"
    by simp
qed

theorem set_configuration_applies_in_order_witness:
  "list_all (check_returns (example_assistant [rule_B, example_rule, rule_A, rule_B]))
      [rule_B, example_rule, rule_A, rule_B]
   \<and> filter (matching (example_assistant [rule_B, example_rule, rule_A, rule_B]))
        [rule_B, example_rule, rule_A, rule_B] = [rule_B, example_rule, rule_A, rule_B]
   \<and> set_configuration (example_assistant [rule_B, example_rule, rule_A, rule_B])
        (example_world\<lparr>general := Some [''selected_profile'' \<mapsto> ''@ByteArray(Old)''],
                        modlists := [''Old'' \<mapsto> ''-modA'']\<rparr>)
      = Inr \<lparr>general = Some [''selected_profile'' \<mapsto> ''@ByteArray(A)''],
             modlists = [''Old'' \<mapsto> ''+modA\<newline>''],
             available_profiles = [''A''],
             errors = [NotExistingProfile ''Second'' ''B'', NotExistingProfile ''Second'' ''B''],
             calls = [(''Old'', [''modA'', ''modB''], [])]\<rparr>
   \<and> selected_profile
        \<lparr>general = Some [''selected_profile'' \<mapsto> ''@ByteArray(A)''],
         modlists = [''Old'' \<mapsto> ''+modA\<newline>''],
         available_profiles = [''A''],
         errors = [NotExistingProfile ''Second'' ''B'', NotExistingProfile ''Second'' ''B''],
         calls = [(''Old'', [''modA'', ''modB''], [])]\<rparr>
      = Some (''@ByteArray('' @ the (profile rule_A) @ '')'')
   \<and> set_configuration (example_assistant [rule_A, example_rule, rule_B])
        (example_world\<lparr>general := Some [''selected_profile'' \<mapsto> ''@ByteArray(Old)''],
                        modlists := Map.empty\<rparr>)
      = Inl (FileNotFoundError,
             \<lparr>general = Some [''selected_profile'' \<mapsto> ''@ByteArray(A)''],
              modlists = Map.empty,
              available_profiles = [''A''],
              errors = [],
              calls = [(''A'', [''modA'', ''modB''], [])]\<rparr>)
   \<and> do rule_percent [''50%''] example_groups example_world = Inl (ValueError, example_world)
   \<and> load_configurations (Some example_config) = Inr ([example_rule], example_groups)
   \<and> map name [example_rule] = [''Low'']"
proof -
  let ?pa = "example_assistant [rule_B, example_rule, rule_A, rule_B]"
  let ?w = "example_world\<lparr>general := Some [''selected_profile'' \<mapsto> ''@ByteArray(Old)''],
                        modlists := [''Old'' \<mapsto> ''-modA'']\<rparr>"
  let ?w' = "\<lparr>general = Some [''selected_profile'' \<mapsto> ''@ByteArray(A)''],
             modlists = [''Old'' \<mapsto> ''+modA\<newline>''],
             available_profiles = [''A''],
             errors = [NotExistingProfile ''Second'' ''B'', NotExistingProfile ''Second'' ''B''],
             calls = [(''Old'', [''modA'', ''modB''], [])]\<rparr>"
  have c: "list_all (check_returns ?pa) [rule_B, example_rule, rule_A, rule_B]"
    by (simp add: check_returns_def check_def check_aspect_ratio_def example_assistant_def
          rule_A_def rule_B_def example_rule_def)
  have m: "filter (matching ?pa) [rule_B, example_rule, rule_A, rule_B]
             = [rule_B, example_rule, rule_A, rule_B]"
    by (simp add: matching_def check_def check_aspect_ratio_def check_vram_def
          check_system_language_def example_assistant_def rule_A_def rule_B_def example_rule_def)
  have l: "load_configurations (Some example_config) = Inr ([example_rule], example_groups)"
    by code_simp
  have p: "pa_configurations ?pa = [rule_B, example_rule, rule_A, rule_B]"
    by (simp add: example_assistant_def)
  have s: "set_configuration ?pa ?w = Inr ?w'"
    by (simp add: set_configuration_def get_profiles_def example_assistant_def example_world_def
          rule_A_def rule_B_def example_rule_def example_groups_def
          check_def check_aspect_ratio_def check_vram_def check_system_language_def
          do_def do_profile_def change_profile_def before_set_ok_def key_match_def
          final_collections_def list_set_def
          get_modlist_file_def current_profile_def
          modify_modlist_file_def readlines_def writelines_def
          py_strip_def strip_with_def py_isspace_def)
  have r: "set_configuration (example_assistant [rule_A, example_rule, rule_B])
        (example_world\<lparr>general := Some [''selected_profile'' \<mapsto> ''@ByteArray(Old)''],
                        modlists := Map.empty\<rparr>)
      = Inl (FileNotFoundError,
             \<lparr>general = Some [''selected_profile'' \<mapsto> ''@ByteArray(A)''],
              modlists = Map.empty,
              available_profiles = [''A''],
              errors = [],
              calls = [(''A'', [''modA'', ''modB''], [])]\<rparr>)"
    by (simp add: set_configuration_def get_profiles_def example_assistant_def example_world_def
          rule_A_def rule_B_def example_rule_def example_groups_def
          check_def check_aspect_ratio_def check_vram_def check_system_language_def
          do_def do_profile_def change_profile_def before_set_ok_def key_match_def
          final_collections_def list_set_def
          get_modlist_file_def current_profile_def
          modify_modlist_file_def)
  have v: "do rule_percent [''50%''] example_groups example_world = Inl (ValueError, example_world)"
    by (simp add: do_def do_profile_def rule_percent_def change_profile_def before_set_ok_def
          key_match_def)
  have sw: "filter (switches (get_profiles ?w)) [rule_B, example_rule, rule_A, rule_B] = [rule_A]"
    by (simp add: switches_def get_profiles_def example_world_def
          rule_A_def rule_B_def example_rule_def)
  from c p have "list_all (check_returns ?pa) (pa_configurations ?pa)" by simp
  with set_configuration_applies_in_order [of ?pa ?w example_config "[example_rule]" example_groups] s
  have "selected_profile ?w' =
            (case filter (switches (get_profiles ?w))
                    (filter (matching ?pa) (pa_configurations ?pa)) of
               [] \<Rightarrow> selected_profile ?w
             | d # ds \<Rightarrow> Some (''@ByteArray('' @ the (profile (last (d # ds))) @ '')''))"
    by blast
  then have "selected_profile ?w' = Some (''@ByteArray('' @ the (profile rule_A) @ '')'')"
    unfolding p m sw by simp
  with c m l s r v show ?thesis by (simp add: example_rule_def)
qed

text \<open>
  That the last matching configuration that sets a profile determines the active
  profile, and that every matching configuration is applied, fails on two inputs.  Both
  rules \<open>First\<close> and \<open>Second\<close> match and the last one that sets a profile is
  \<open>Second\<close>, with the profile \<open>B\<close>: \<open>B\<close> is not an available profile, so the pass
  ends with the profile \<open>A\<close> of \<open>First\<close>.  And when the mod-list file of the active
  profile does not exist, the rewrite for the rule \<open>Low\<close> raises and the matching rule
  \<open>First\<close> after it is never applied: the profile \<open>Old\<close> stays selected.
\<close>

theorem set_configuration_last_profile_counterexample:
  "filter (matching (example_assistant [rule_A, rule_B])) [rule_A, rule_B] = [rule_A, rule_B]
   \<and> profile (last (filter (sets_profile (example_assistant [rule_A, rule_B]))
                       [rule_A, rule_B])) = Some ''B''
   \<and> set_configuration (example_assistant [rule_A, rule_B])
        (example_world\<lparr>general := Some [''selected_profile'' \<mapsto> ''@ByteArray(Old)'']\<rparr>)
      = Inr (example_world\<lparr>general := Some [''selected_profile'' \<mapsto> ''@ByteArray(A)''],
                             errors := [NotExistingProfile ''Second'' ''B'']\<rparr>)
   \<and> selected_profile
        (example_world\<lparr>general := Some [''selected_profile'' \<mapsto> ''@ByteArray(A)''],
                        errors := [NotExistingProfile ''Second'' ''B'']\<rparr>)
      = Some ''@ByteArray(A)''
   \<and> ''@ByteArray(A)'' \<noteq> ''@ByteArray(B)''
   \<and> filter (matching (example_assistant [example_rule, rule_A])) [example_rule, rule_A]
       = [example_rule, rule_A]
   \<and> set_configuration (example_assistant [example_rule, rule_A])
        (example_world\<lparr>general := Some [''selected_profile'' \<mapsto> ''@ByteArray(Old)'']\<rparr>)
      = Inl (FileNotFoundError,
             example_world\<lparr>general := Some [''selected_profile'' \<mapsto> ''@ByteArray(Old)''],
                           calls := [(''Old'', [''modA'', ''modB''], [])]\<rparr>)
   \<and> selected_profile
        (example_world\<lparr>general := Some [''selected_profile'' \<mapsto> ''@ByteArray(Old)''],
                        calls := [(''Old'', [''modA'', ''modB''], [])]\<rparr>)
      = Some ''@ByteArray(Old)''"
proof (intro conjI)
  show "filter (matching (example_assistant [rule_A, rule_B])) [rule_A, rule_B] = [rule_A, rule_B]"
    by (simp add: matching_def check_def check_aspect_ratio_def check_vram_def
          check_system_language_def example_assistant_def rule_A_def rule_B_def)
  show "profile (last (filter (sets_profile (example_assistant [rule_A, rule_B]))
                       [rule_A, rule_B])) = Some ''B''"
    by (simp add: sets_profile_def matching_def check_def check_aspect_ratio_def check_vram_def
          check_system_language_def example_assistant_def rule_A_def rule_B_def)
  show "set_configuration (example_assistant [rule_A, rule_B])
        (example_world\<lparr>general := Some [''selected_profile'' \<mapsto> ''@ByteArray(Old)'']\<rparr>)
      = Inr (example_world\<lparr>general := Some [''selected_profile'' \<mapsto> ''@ByteArray(A)''],
                             errors := [NotExistingProfile ''Second'' ''B'']\<rparr>)"
    by (simp add: set_configuration_def get_profiles_def example_assistant_def example_world_def
          rule_A_def rule_B_def check_def check_aspect_ratio_def check_vram_def
          check_system_language_def do_def do_profile_def change_profile_def
          before_set_ok_def key_match_def final_collections_def)
  show "selected_profile
        (example_world\<lparr>general := Some [''selected_profile'' \<mapsto> ''@ByteArray(A)''],
                        errors := [NotExistingProfile ''Second'' ''B'']\<rparr>)
      = Some ''@ByteArray(A)''"
    by (simp add: selected_profile_def)
  show "''@ByteArray(A)'' \<noteq> ''@ByteArray(B)''"
    by simp
  show "filter (matching (example_assistant [example_rule, rule_A])) [example_rule, rule_A]
       = [example_rule, rule_A]"
    by (simp add: matching_def check_def check_aspect_ratio_def check_vram_def
          check_system_language_def example_assistant_def rule_A_def example_rule_def)
  show "set_configuration (example_assistant [example_rule, rule_A])
        (example_world\<lparr>general := Some [''selected_profile'' \<mapsto> ''@ByteArray(Old)'']\<rparr>)
      = Inl (FileNotFoundError,
             example_world\<lparr>general := Some [''selected_profile'' \<mapsto> ''@ByteArray(Old)''],
                           calls := [(''Old'', [''modA'', ''modB''], [])]\<rparr>)"
    by (simp add: set_configuration_def get_profiles_def example_assistant_def example_world_def
          rule_A_def example_rule_def example_groups_def
          check_def check_aspect_ratio_def check_vram_def check_system_language_def
          do_def do_profile_def change_profile_def final_collections_def list_set_def
          get_modlist_file_def current_profile_def modify_modlist_file_def)
  show "selected_profile
        (example_world\<lparr>general := Some [''selected_profile'' \<mapsto> ''@ByteArray(Old)''],
                        calls := [(''Old'', [''modA'', ''modB''], [])]\<rparr>)
      = Some ''@ByteArray(Old)''"
    by (simp add: selected_profile_def)
qed

end
